theory Spec2Isabelle
  imports Main "HOL-Library.Sublist"
begin

section \<open>Android launcher icon generator (generate_icons.py)\<close>

text \<open>
  The script opens one source image, converts it to RGBA when needed and, for each
  entry of a fixed density table, resizes it and saves the resized bitmap four times.
  Everything it does is a call into Pillow or \<open>os\<close>, a \<open>print\<close>, or control flow.
  The embedding keeps the control flow of the source and makes the outside world
  explicit: a file system, the set of directories, and the sequence of observable
  events. What Pillow and the operating system compute, and when they raise, is not
  in the repository; it enters as the parameter \<open>env\<close>.
\<close>

subsection \<open>Data\<close>

type_synonym path = string
type_synonym bytes = "nat list"

text \<open>A Python exception derived from \<open>Exception\<close>; the string is \<open>str(e)\<close>.\<close>

datatype exn = Exception string

fun str_exn :: "exn \<Rightarrow> string" where
  "str_exn (Exception m) = m"

text \<open>A decoded bitmap: \<open>Image.size\<close>, \<open>Image.mode\<close> and the pixel data.\<close>

record image =
  img_size :: "int \<times> int"
  img_mode :: string
  img_data :: "nat list"

text \<open>The members of \<open>Image.Resampling\<close>.\<close>

datatype resampling = NEAREST | LANCZOS | BILINEAR | BICUBIC | BOX | HAMMING

datatype format = PNG | WEBP

text \<open>Keyword arguments of \<open>Image.save\<close>.\<close>

datatype save_opt = Optimize bool | Quality int

text \<open>
  What a run does, in order. \<open>Raised e\<close> records that a call raised \<open>e\<close>; the other
  events record calls that returned.
\<close>

datatype event =
    Print string
  | Opened path image
  | Converted image string image
  | MadeDirs path
  | Resized image "int \<times> int" resampling image
  | Saved image path format "save_opt list" bytes
  | Raised exn

record world =
  files :: "path \<rightharpoonup> bytes"
  dirs :: "path set"
  trace :: "event list"

text \<open>
  The behaviour of Pillow and of the operating system. The image operations are
  functions of their arguments that may raise. The three \<open>os_\<close> fields say when a file
  system operation raises, depending on the whole world at that moment (a full disk, a
  missing permission).
\<close>

record env =
  os_open_err :: "world \<Rightarrow> path \<Rightarrow> exn option"
  pil_decode :: "bytes \<Rightarrow> exn + image"
  pil_convert :: "image \<Rightarrow> string \<Rightarrow> exn + image"
  pil_resize :: "image \<Rightarrow> int \<times> int \<Rightarrow> resampling \<Rightarrow> exn + image"
  pil_encode :: "image \<Rightarrow> format \<Rightarrow> save_opt list \<Rightarrow> exn + bytes"
  os_makedirs_err :: "world \<Rightarrow> path \<Rightarrow> exn option"
  os_write_err :: "world \<Rightarrow> path \<Rightarrow> bytes \<Rightarrow> exn option"

subsection \<open>Statements that may raise\<close>

text \<open>
  A statement takes the world and returns the world it leaves, with either its value or
  the exception it raised.
\<close>

type_synonym 'a prog = "world \<Rightarrow> (exn + 'a) \<times> world"

definition ret :: "'a \<Rightarrow> 'a prog" where
  "ret x = (\<lambda>w. (Inr x, w))"

definition py_raise :: "exn \<Rightarrow> 'a prog" where
  "py_raise e = (\<lambda>w. (Inl e, w\<lparr>trace := trace w @ [Raised e]\<rparr>))"

text \<open>Sequencing: an exception of the first statement skips the rest.\<close>

definition bnd :: "'a prog \<Rightarrow> ('a \<Rightarrow> 'b prog) \<Rightarrow> 'b prog" where
  "bnd m f = (\<lambda>w. case m w of (Inl e, w') \<Rightarrow> (Inl e, w') | (Inr x, w') \<Rightarrow> f x w')"

text \<open>\<open>try: m except Exception as e: h e\<close>\<close>

definition try_except :: "'a prog \<Rightarrow> (exn \<Rightarrow> 'a prog) \<Rightarrow> 'a prog" where
  "try_except m h = (\<lambda>w. case m w of (Inl e, w') \<Rightarrow> h e w' | (Inr x, w') \<Rightarrow> (Inr x, w'))"

text \<open>\<open>for x in xs: f x\<close>\<close>

fun for_each :: "'a list \<Rightarrow> ('a \<Rightarrow> unit prog) \<Rightarrow> unit prog" where
  "for_each [] f = ret ()"
| "for_each (x # xs) f = bnd (f x) (\<lambda>_. for_each xs f)"

subsection \<open>Strings\<close>

text \<open>\<open>str\<close> of an integer, as an f-string formats it.\<close>

fun digits :: "nat \<Rightarrow> string" where
  "digits n = (if n < 10 then [char_of (48 + n)]
               else digits (n div 10) @ [char_of (48 + n mod 10)])"

declare digits.simps [simp del]

definition str_int :: "int \<Rightarrow> string" where
  "str_int i = (if i < 0 then CHR ''-'' # digits (nat (- i)) else digits (nat i))"

text \<open>\<open>str\<close> of a pair of integers: \<open>(512, 512)\<close>.\<close>

definition str_size :: "int \<times> int \<Rightarrow> string" where
  "str_size sz = ''('' @ str_int (fst sz) @ '', '' @ str_int (snd sz) @ '')''"

text \<open>\<open>repr\<close> of a string without quotes or escapes in it.\<close>

definition quoted :: "string \<Rightarrow> string" where
  "quoted s = [CHR 0x27] @ s @ [CHR 0x27]"

text \<open>The check mark U+2713 in UTF-8, and the line feed.\<close>

definition check_mark :: string where
  "check_mark = [CHR 0xE2, CHR 0x9C, CHR 0x93]"

definition newline :: string where
  "newline = [CHR 0x0A]"

text \<open>\<open>os.path.join\<close> of two components (POSIX).\<close>

definition os_path_join :: "path \<Rightarrow> path \<Rightarrow> path" where
  "os_path_join a b =
     (case b of
        c # _ \<Rightarrow> if c = CHR ''/'' then b
                 else if a = [] \<or> last a = CHR ''/'' then a @ b else a @ ''/'' @ b
      | [] \<Rightarrow> if a = [] \<or> last a = CHR ''/'' then a else a @ ''/'')"

text \<open>
  The directories \<open>os.makedirs\<close> makes sure of: the path and each of its ancestors.
  \<open>dir_chain '''' ''a/b/c''\<close> is \<open>[''a'', ''a/b'', ''a/b/c'']\<close>.
\<close>

fun dir_chain :: "path \<Rightarrow> path \<Rightarrow> path list" where
  "dir_chain acc [] = (if acc = [] then [] else [acc])"
| "dir_chain acc (c # cs) =
     (if c = CHR ''/'' \<and> acc \<noteq> [] \<and> last acc \<noteq> CHR ''/''
      then acc # dir_chain (acc @ [c]) cs
      else dir_chain (acc @ [c]) cs)"

subsection \<open>The calls the script makes\<close>

definition print :: "string \<Rightarrow> unit prog" where
  "print s = (\<lambda>w. (Inr (), w\<lparr>trace := trace w @ [Print s]\<rparr>))"

text \<open>
  \<open>Image.open(p)\<close>: raises when the operating system refuses, when there is no such
  file, and when Pillow cannot read what the file holds.
\<close>

definition Image_open :: "env \<Rightarrow> path \<Rightarrow> image prog" where
  "Image_open E p = (\<lambda>w.
     case os_open_err E w p of
       Some e \<Rightarrow> py_raise e w
     | None \<Rightarrow>
        (case files w p of
           None \<Rightarrow> py_raise (Exception (''[Errno 2] No such file or directory: '' @ quoted p)) w
         | Some b \<Rightarrow>
            (case pil_decode E b of
               Inl e \<Rightarrow> py_raise e w
             | Inr img \<Rightarrow> (Inr img, w\<lparr>trace := trace w @ [Opened p img]\<rparr>))))"

text \<open>\<open>img.convert(mode)\<close>\<close>

definition Image_convert :: "env \<Rightarrow> image \<Rightarrow> string \<Rightarrow> image prog" where
  "Image_convert E img m = (\<lambda>w.
     case pil_convert E img m of
       Inl e \<Rightarrow> py_raise e w
     | Inr img' \<Rightarrow> (Inr img', w\<lparr>trace := trace w @ [Converted img m img']\<rparr>))"

text \<open>\<open>img.resize(size, resample)\<close>: a new image, \<open>img\<close> is not changed.\<close>

definition Image_resize :: "env \<Rightarrow> image \<Rightarrow> int \<times> int \<Rightarrow> resampling \<Rightarrow> image prog" where
  "Image_resize E img sz f = (\<lambda>w.
     case pil_resize E img sz f of
       Inl e \<Rightarrow> py_raise e w
     | Inr img' \<Rightarrow> (Inr img', w\<lparr>trace := trace w @ [Resized img sz f img']\<rparr>))"

text \<open>
  \<open>img.save(p, format, **opts)\<close>: encodes and writes the file. A save that raises
  leaves the file system as it was.
\<close>

definition Image_save :: "env \<Rightarrow> image \<Rightarrow> path \<Rightarrow> format \<Rightarrow> save_opt list \<Rightarrow> unit prog" where
  "Image_save E img p fmt opts = (\<lambda>w.
     case pil_encode E img fmt opts of
       Inl e \<Rightarrow> py_raise e w
     | Inr b \<Rightarrow>
        (case os_write_err E w p b of
           Some e \<Rightarrow> py_raise e w
         | None \<Rightarrow> (Inr (), w\<lparr>files := (files w)(p \<mapsto> b),
                              trace := trace w @ [Saved img p fmt opts b]\<rparr>)))"

text \<open>\<open>os.makedirs(p, exist_ok=True)\<close>\<close>

definition os_makedirs :: "env \<Rightarrow> path \<Rightarrow> unit prog" where
  "os_makedirs E p = (\<lambda>w.
     case os_makedirs_err E w p of
       Some e \<Rightarrow> py_raise e w
     | None \<Rightarrow> (Inr (), w\<lparr>dirs := dirs w \<union> set (dir_chain [] p),
                          trace := trace w @ [MadeDirs p]\<rparr>))"

subsection \<open>The script\<close>

definition SOURCE_ICON :: path where
  "SOURCE_ICON = ''app/src/main/res/Icon.png''"

text \<open>A Python dict literal: its items, in insertion order.\<close>

definition ICON_SIZES :: "(string \<times> int) list" where
  "ICON_SIZES =
     [(''mdpi'', 48), (''hdpi'', 72), (''xhdpi'', 96), (''xxhdpi'', 144), (''xxxhdpi'', 192)]"

definition MIPMAP_DIR :: path where
  "MIPMAP_DIR = ''app/src/main/res''"

text \<open>The progress line after a save.\<close>

definition saved_line :: "path \<Rightarrow> string" where
  "saved_line p = ''  '' @ check_mark @ '' Saved: '' @ p"

text \<open>The body of the \<open>for\<close> loop, for one item of the table.\<close>

definition loop_body :: "env \<Rightarrow> image \<Rightarrow> string \<times> int \<Rightarrow> unit prog" where
  "loop_body E source_img item =
    (case item of (density, size') \<Rightarrow>
     bnd (print (newline @ ''Generating '' @ density @ '' icons ('' @ str_int size' @ ''x''
                   @ str_int size' @ '')...'')) (\<lambda>_.
     let output_dir = os_path_join MIPMAP_DIR (''mipmap-'' @ density) in
     bnd (os_makedirs E output_dir) (\<lambda>_.
     bnd (Image_resize E source_img (size', size') LANCZOS) (\<lambda>resized_img.
     let png_path = os_path_join output_dir ''ic_launcher.png'' in
     bnd (Image_save E resized_img png_path PNG [Optimize True]) (\<lambda>_.
     bnd (print (saved_line png_path)) (\<lambda>_.
     let round_path = os_path_join output_dir ''ic_launcher_round.png'' in
     bnd (Image_save E resized_img round_path PNG [Optimize True]) (\<lambda>_.
     bnd (print (saved_line round_path)) (\<lambda>_.
     let webp_path = os_path_join output_dir ''ic_launcher.webp'' in
     bnd (Image_save E resized_img webp_path WEBP [Quality 95]) (\<lambda>_.
     bnd (print (saved_line webp_path)) (\<lambda>_.
     let webp_round_path = os_path_join output_dir ''ic_launcher_round.webp'' in
     bnd (Image_save E resized_img webp_round_path WEBP [Quality 95]) (\<lambda>_.
     print (saved_line webp_round_path))))))))))))"

text \<open>
  The \<open>try\<close> statement: the image on success; on any exception the handler prints and
  the function returns, which \<open>None\<close> stands for.
\<close>

definition load_source :: "env \<Rightarrow> image option prog" where
  "load_source E =
     try_except
       (bnd (Image_open E SOURCE_ICON) (\<lambda>source_img.
        bnd (print (''Source icon size: '' @ str_size (img_size source_img))) (\<lambda>_.
        ret (Some source_img))))
       (\<lambda>e. bnd (print (''Error loading source icon: '' @ str_exn e)) (\<lambda>_. ret None))"

text \<open>Everything after the \<open>try\<close> statement, for a loaded image.\<close>

definition after_load :: "env \<Rightarrow> image \<Rightarrow> unit prog" where
  "after_load E source_img0 =
     bnd (if img_mode source_img0 \<noteq> ''RGBA'' then Image_convert E source_img0 ''RGBA''
          else ret source_img0) (\<lambda>source_img.
     bnd (for_each ICON_SIZES (loop_body E source_img)) (\<lambda>_.
     print (newline @ check_mark @ '' All icons generated successfully!'')))"

definition generate_icons :: "env \<Rightarrow> unit prog" where
  "generate_icons E =
     bnd (print (''Loading source icon: '' @ SOURCE_ICON)) (\<lambda>_.
     bnd (load_source E) (\<lambda>loaded.
     case loaded of
       None \<Rightarrow> ret ()
     | Some source_img0 \<Rightarrow> after_load E source_img0))"

subsection \<open>Observing a run\<close>

text \<open>The events a run from \<open>w\<close> to \<open>w'\<close> added to the trace.\<close>

definition new_events :: "world \<Rightarrow> world \<Rightarrow> event list" where
  "new_events w w' = drop (length (trace w)) (trace w')"

text \<open>The files the events write, in order: path and content.\<close>

fun saved_files :: "event list \<Rightarrow> (path \<times> bytes) list" where
  "saved_files [] = []"
| "saved_files (Saved img p fmt opts b # evs) = (p, b) # saved_files evs"
| "saved_files (_ # evs) = saved_files evs"

text \<open>The arguments of the \<open>os.makedirs\<close> calls, in order.\<close>

fun made_dir_list :: "event list \<Rightarrow> path list" where
  "made_dir_list [] = []"
| "made_dir_list (MadeDirs p # evs) = p # made_dir_list evs"
| "made_dir_list (_ # evs) = made_dir_list evs"

text \<open>The file system after the saves among the events, applied in order.\<close>

fun write_files :: "event list \<Rightarrow> (path \<rightharpoonup> bytes) \<Rightarrow> (path \<rightharpoonup> bytes)" where
  "write_files [] m = m"
| "write_files (Saved img p fmt opts b # evs) m = write_files evs (m(p \<mapsto> b))"
| "write_files (_ # evs) m = write_files evs m"

text \<open>The directories the events made sure of.\<close>

fun made_dirs :: "event list \<Rightarrow> path set" where
  "made_dirs [] = {}"
| "made_dirs (MadeDirs p # evs) = set (dir_chain [] p) \<union> made_dirs evs"
| "made_dirs (_ # evs) = made_dirs evs"

text \<open>Every save is followed at once by the print of its progress line.\<close>

fun saves_followed :: "event list \<Rightarrow> bool" where
  "saves_followed [] = True"
| "saves_followed (Saved img p fmt opts b # evs) =
     (case evs of Print s # _ \<Rightarrow> s = saved_line p \<and> saves_followed evs | _ \<Rightarrow> False)"
| "saves_followed (_ # evs) = saves_followed evs"

text \<open>The event that ends a run that raised.\<close>

definition raised :: "exn + 'a \<Rightarrow> event list" where
  "raised r = (case r of Inl e \<Rightarrow> [Raised e] | Inr _ \<Rightarrow> [])"

text \<open>The world \<open>w'\<close> is \<open>w\<close> after exactly the events \<open>evs\<close>: nothing else touched the
  trace, the files or the directories.\<close>

definition tracked :: "world \<Rightarrow> world \<Rightarrow> event list \<Rightarrow> bool" where
  "tracked w w' evs \<longleftrightarrow>
     trace w' = trace w @ evs \<and> files w' = write_files evs (files w) \<and>
     dirs w' = dirs w \<union> made_dirs evs \<and> saves_followed evs"

subsection \<open>What a run does when the operating system refuses nothing\<close>

text \<open>What \<open>Image.open(SOURCE_ICON)\<close> returns or raises in the run that starts in \<open>w\<close>
  (the first \<open>print\<close> comes before it).\<close>

definition source_load :: "env \<Rightarrow> world \<Rightarrow> exn + image" where
  "source_load E w =
     fst (Image_open E SOURCE_ICON (snd (print (''Loading source icon: '' @ SOURCE_ICON) w)))"

text \<open>The value of \<open>source_img\<close> when the loop starts, for the image \<open>img0\<close> that was opened.\<close>

definition source_image :: "env \<Rightarrow> image \<Rightarrow> exn + image" where
  "source_image E img0 =
     (if img_mode img0 \<noteq> ''RGBA'' then pil_convert E img0 ''RGBA'' else Inr img0)"

text \<open>\<open>output_dir\<close> for a density.\<close>

definition icon_dir :: "string \<Rightarrow> path" where
  "icon_dir d = os_path_join MIPMAP_DIR (''mipmap-'' @ d)"

text \<open>The line printed at the start of an iteration.\<close>

definition generating_line :: "string \<Rightarrow> int \<Rightarrow> string" where
  "generating_line d s =
     newline @ ''Generating '' @ d @ '' icons ('' @ str_int s @ ''x'' @ str_int s @ '')...''"

text \<open>The last line of a complete run.\<close>

definition success_line :: string where
  "success_line = newline @ check_mark @ '' All icons generated successfully!''"

text \<open>The events of a successful \<open>try\<close> statement, with the \<open>print\<close> before it.\<close>

definition load_events :: "image \<Rightarrow> event list" where
  "load_events img0 =
     [Print (''Loading source icon: '' @ SOURCE_ICON), Opened SOURCE_ICON img0,
      Print (''Source icon size: '' @ str_size (img_size img0))]"

text \<open>The events of one iteration when the operating system refuses nothing: they stop
  where Pillow raises.\<close>

definition body_plan :: "env \<Rightarrow> image \<Rightarrow> string \<times> int \<Rightarrow> event list" where
  "body_plan E src item =
    (case item of (d, s) \<Rightarrow>
       [Print (generating_line d s), MadeDirs (icon_dir d)] @
       (case pil_resize E src (s, s) LANCZOS of
          Inl _ \<Rightarrow> []
        | Inr r \<Rightarrow>
            Resized src (s, s) LANCZOS r #
            (case pil_encode E r PNG [Optimize True] of
               Inl _ \<Rightarrow> []
             | Inr b1 \<Rightarrow>
                 [Saved r (os_path_join (icon_dir d) ''ic_launcher.png'') PNG [Optimize True] b1,
                  Print (saved_line (os_path_join (icon_dir d) ''ic_launcher.png'')),
                  Saved r (os_path_join (icon_dir d) ''ic_launcher_round.png'') PNG [Optimize True] b1,
                  Print (saved_line (os_path_join (icon_dir d) ''ic_launcher_round.png''))] @
                 (case pil_encode E r WEBP [Quality 95] of
                    Inl _ \<Rightarrow> []
                  | Inr b2 \<Rightarrow>
                      [Saved r (os_path_join (icon_dir d) ''ic_launcher.webp'') WEBP [Quality 95] b2,
                       Print (saved_line (os_path_join (icon_dir d) ''ic_launcher.webp'')),
                       Saved r (os_path_join (icon_dir d) ''ic_launcher_round.webp'') WEBP [Quality 95] b2,
                       Print (saved_line (os_path_join (icon_dir d) ''ic_launcher_round.webp''))]))))"

text \<open>Pillow raises nowhere in one iteration.\<close>

definition body_ok :: "env \<Rightarrow> image \<Rightarrow> string \<times> int \<Rightarrow> bool" where
  "body_ok E src item =
    (case item of (d, s) \<Rightarrow>
       (case pil_resize E src (s, s) LANCZOS of
          Inl _ \<Rightarrow> False
        | Inr r \<Rightarrow> \<not> isl (pil_encode E r PNG [Optimize True]) \<and>
                   \<not> isl (pil_encode E r WEBP [Quality 95])))"

text \<open>The events of the loop when the operating system refuses nothing.\<close>

fun loop_plan :: "env \<Rightarrow> image \<Rightarrow> (string \<times> int) list \<Rightarrow> event list" where
  "loop_plan E src [] = []"
| "loop_plan E src (x # xs) =
     body_plan E src x @ (if body_ok E src x then loop_plan E src xs else [])"

text \<open>The event of the conversion, when there is one and it gives \<open>src\<close>.\<close>

definition conv_events :: "image \<Rightarrow> image \<Rightarrow> event list" where
  "conv_events img0 src =
     (if img_mode img0 \<noteq> ''RGBA'' then [Converted img0 ''RGBA'' src] else [])"

text \<open>The events after a successful load when the operating system refuses nothing.\<close>

definition run_plan :: "env \<Rightarrow> image \<Rightarrow> event list" where
  "run_plan E img0 =
     (case source_image E img0 of
        Inl _ \<Rightarrow> []
      | Inr src \<Rightarrow>
          conv_events img0 src @ loop_plan E src ICON_SIZES @
          (if \<forall>x\<in>set ICON_SIZES. body_ok E src x then [Print success_line] else []))"

text \<open>Pillow raises nowhere after the load.\<close>

definition run_ok :: "env \<Rightarrow> image \<Rightarrow> bool" where
  "run_ok E img0 =
     (case source_image E img0 of
        Inl _ \<Rightarrow> False
      | Inr src \<Rightarrow> \<forall>x\<in>set ICON_SIZES. body_ok E src x)"

subsection \<open>The output layout\<close>

text \<open>The output layout of the specification: four file names,\<close>

definition icon_names :: "string list" where
  "icon_names = [''ic_launcher.png'', ''ic_launcher_round.png'', ''ic_launcher.webp'',
                 ''ic_launcher_round.webp'']"

text \<open>in the directory of a density,\<close>

definition icon_files :: "string \<Rightarrow> path list" where
  "icon_files d = map (\<lambda>n. ''app/src/main/res/mipmap-'' @ d @ ''/'' @ n) icon_names"

text \<open>for the five densities: twenty paths.\<close>

definition icon_paths :: "path list" where
  "icon_paths = concat (map icon_files [''mdpi'', ''hdpi'', ''xhdpi'', ''xxhdpi'', ''xxxhdpi''])"

text \<open>The conversions among the events: image, mode and result.\<close>

fun conversions :: "event list \<Rightarrow> (image \<times> string \<times> image) list" where
  "conversions [] = []"
| "conversions (Converted a m c # evs) = (a, m, c) # conversions evs"
| "conversions (_ # evs) = conversions evs"

text \<open>
  What Pillow's documentation says of \<open>convert\<close> and \<open>resize\<close>: the result of
  \<open>convert\<close> has the mode asked for, the result of \<open>resize\<close> has the size asked for and
  the mode of the image it was given.
\<close>

definition pillow_documented :: "env \<Rightarrow> bool" where
  "pillow_documented E \<longleftrightarrow>
     (\<forall>img m img'. pil_convert E img m = Inr img' \<longrightarrow> img_mode img' = m) \<and>
     (\<forall>img sz f img'. pil_resize E img sz f = Inr img' \<longrightarrow>
        img_size img' = sz \<and> img_mode img' = img_mode img)"

text \<open>The size and filter of the \<open>resize\<close> calls, in order.\<close>

fun resize_list :: "event list \<Rightarrow> ((int \<times> int) \<times> resampling) list" where
  "resize_list [] = []"
| "resize_list (Resized a sz f res # evs) = (sz, f) # resize_list evs"
| "resize_list (_ # evs) = resize_list evs"

text \<open>The operating system refuses no directory and no write.\<close>

definition os_quiet :: "env \<Rightarrow> bool" where
  "os_quiet E \<longleftrightarrow>
     (\<forall>w p. os_makedirs_err E w p = None) \<and> (\<forall>w p b. os_write_err E w p b = None)"

subsection \<open>Sample environments\<close>

text \<open>
  A Pillow and an operating system that refuse nothing: decoding gives a 512 by 300 RGB
  image, \<open>convert\<close> sets the mode, \<open>resize\<close> sets the size, and the encoders
  write a format tag, the width and the pixel data.
\<close>

definition pillow_ok :: env where
  "pillow_ok =
     \<lparr>os_open_err = (\<lambda>w p. None),
      pil_decode = (\<lambda>b. if b = [] then Inl (Exception ''cannot identify image file'')
                         else Inr \<lparr>img_size = (512, 300), img_mode = ''RGB'', img_data = b\<rparr>),
      pil_convert = (\<lambda>img m. Inr (img\<lparr>img_mode := m\<rparr>)),
      pil_resize = (\<lambda>img sz f. Inr (img\<lparr>img_size := sz\<rparr>)),
      pil_encode = (\<lambda>img fmt opts.
         Inr ((case fmt of PNG \<Rightarrow> 1 | WEBP \<Rightarrow> 2) # nat (fst (img_size img)) # img_data img)),
      os_makedirs_err = (\<lambda>w p. None),
      os_write_err = (\<lambda>w p b. None)\<rparr>"

text \<open>A world that holds the source icon and its directory, and nothing else.\<close>

definition world0 :: world where
  "world0 = \<lparr>files = [SOURCE_ICON \<mapsto> [7]], dirs = set (dir_chain [] MIPMAP_DIR), trace = []\<rparr>"

definition icon0 :: image where
  "icon0 = \<lparr>img_size = (512, 300), img_mode = ''RGB'', img_data = [7]\<rparr>"

text \<open>The same world without the source icon.\<close>

definition world_no_icon :: world where
  "world_no_icon = \<lparr>files = Map.empty, dirs = set (dir_chain [] MIPMAP_DIR), trace = []\<rparr>"

text \<open>An operating system that lets no directory be made.\<close>

definition denied_env :: env where
  "denied_env =
     pillow_ok\<lparr>os_makedirs_err := (\<lambda>w p. Some (Exception ''[Errno 13] Permission denied''))\<rparr>"

text \<open>A disk that is full when the third file of the first density is written.\<close>

definition full_env :: env where
  "full_env =
     pillow_ok\<lparr>os_write_err := (\<lambda>w p b.
       if p = ''app/src/main/res/mipmap-mdpi/ic_launcher.webp''
       then Some (Exception ''[Errno 28] No space left on device'') else None)\<rparr>"

section \<open>Properties\<close>

subsection \<open>Events, files and paths\<close>

lemma write_files_append: "write_files (xs @ ys) m = write_files ys (write_files xs m)"
proof (induction xs arbitrary: m)
  case Nil
  show ?case by simp
next
  case (Cons x xs)
  then show ?case by (cases x) (simp_all add: fun_upd_def)
qed

lemma made_dirs_append: "made_dirs (xs @ ys) = made_dirs xs \<union> made_dirs ys"
proof (induction xs)
  case Nil
  show ?case by simp
next
  case (Cons x xs)
  then show ?case by (cases x) auto
qed

lemma saves_followed_append:
  "saves_followed xs \<Longrightarrow> saves_followed ys \<Longrightarrow> saves_followed (xs @ ys)"
proof (induction xs rule: saves_followed.induct)
  case (2 img p fmt opts b evs)
  then show ?case by (auto split: list.splits event.splits)
qed simp_all

lemma tracked_trans: "tracked w w1 xs \<Longrightarrow> tracked w1 w2 ys \<Longrightarrow> tracked w w2 (xs @ ys)"
  by (auto simp: tracked_def write_files_append made_dirs_append saves_followed_append)

lemma tracked_new_events: "tracked w w' evs \<Longrightarrow> new_events w w' = evs"
  by (simp add: tracked_def new_events_def)

lemma loop_body_plan:
  assumes "loop_body E src item w = (r, w')"
  shows "\<exists>pre. tracked w w' (pre @ raised r) \<and> prefix pre (body_plan E src item)
           \<and> (r = Inr () \<longrightarrow> pre = body_plan E src item \<and> body_ok E src item)"
  using assms
  unfolding loop_body_def body_plan_def body_ok_def Let_def raised_def icon_dir_def generating_line_def
  apply (cases item)
  apply (auto simp: bnd_def print_def os_makedirs_def Image_resize_def Image_save_def py_raise_def tracked_def
      split: sum.splits option.splits prod.splits)
  done

lemma for_each_plan:
  assumes "for_each ds (loop_body E src) w = (r, w')"
  shows "\<exists>pre. tracked w w' (pre @ raised r) \<and> prefix pre (loop_plan E src ds)
           \<and> (r = Inr () \<longrightarrow> pre = loop_plan E src ds \<and> (\<forall>x\<in>set ds. body_ok E src x))"
  using assms
proof (induction ds arbitrary: w)
  case Nil
  then show ?case by (auto simp: ret_def raised_def tracked_def)
next
  case (Cons x xs)
  obtain r1 w1 where b: "loop_body E src x w = (r1, w1)" by (cases "loop_body E src x w")
  from loop_body_plan [OF b] obtain pre1 where
    p1: "tracked w w1 (pre1 @ raised r1)" "prefix pre1 (body_plan E src x)"
      "r1 = Inr () \<longrightarrow> pre1 = body_plan E src x \<and> body_ok E src x" by blast
  show ?case
  proof (cases r1)
    case (Inl e)
    with b Cons.prems have "r = Inl e" "w' = w1" by (auto simp: bnd_def)
    with p1 Inl show ?thesis
      by (intro exI [of _ pre1]) (auto simp: prefix_def)
  next
    case (Inr u)
    with b Cons.prems have rest: "for_each xs (loop_body E src) w1 = (r, w')"
      by (auto simp: bnd_def)
    from Cons.IH [OF rest] obtain pre2 where
      p2: "tracked w1 w' (pre2 @ raised r)" "prefix pre2 (loop_plan E src xs)"
        "r = Inr () \<longrightarrow> pre2 = loop_plan E src xs \<and> (\<forall>x\<in>set xs. body_ok E src x)" by blast
    from Inr p1 have e1: "pre1 = body_plan E src x" "body_ok E src x" "raised r1 = []"
      by (auto simp: raised_def)
    from p1(1) p2(1) e1 have "tracked w w' ((pre1 @ pre2) @ raised r)"
      using tracked_trans [of w w1 pre1 w' "pre2 @ raised r"] by simp
    with p2 e1 show ?thesis
      by (intro exI [of _ "pre1 @ pre2"]) auto
  qed
qed

lemma after_load_plan:
  assumes "after_load E img0 w = (r, w')"
  shows "\<exists>pre. tracked w w' (pre @ raised r) \<and> prefix pre (run_plan E img0)
           \<and> (r = Inr () \<longrightarrow> pre = run_plan E img0 \<and> run_ok E img0)
           \<and> (case source_image E img0 of
                 Inl e \<Rightarrow> pre = [] \<and> r = Inl e
               | Inr src \<Rightarrow> prefix (conv_events img0 src) pre)"
proof (cases "source_image E img0")
  case (Inl e)
  with assms have "r = Inl e" "w' = w\<lparr>trace := trace w @ [Raised e]\<rparr>"
    by (auto simp: after_load_def source_image_def bnd_def Image_convert_def py_raise_def ret_def
        split: if_splits)
  with Inl show ?thesis
    by (intro exI [of _ "[]"]) (auto simp: tracked_def raised_def)
next
  case (Inr src)
  define cv where "cv = conv_events img0 src"
  define w1 where "w1 = w\<lparr>trace := trace w @ cv\<rparr>"
  have t1: "tracked w w1 cv"
    by (auto simp: tracked_def w1_def cv_def conv_events_def)
  from assms Inr have rest:
    "bnd (for_each ICON_SIZES (loop_body E src)) (\<lambda>_. print success_line) w1 = (r, w')"
    by (auto simp: after_load_def source_image_def bnd_def Image_convert_def ret_def w1_def cv_def
        conv_events_def success_line_def split: if_splits)
  obtain r2 w2 where l: "for_each ICON_SIZES (loop_body E src) w1 = (r2, w2)"
    by (cases "for_each ICON_SIZES (loop_body E src) w1")
  from for_each_plan [OF l] obtain pre2 where
    p2: "tracked w1 w2 (pre2 @ raised r2)" "prefix pre2 (loop_plan E src ICON_SIZES)"
      "r2 = Inr () \<longrightarrow> pre2 = loop_plan E src ICON_SIZES \<and> (\<forall>x\<in>set ICON_SIZES. body_ok E src x)"
    by blast
  show ?thesis
  proof (cases r2)
    case (Inl e)
    with rest l have "r = Inl e" "w' = w2" by (auto simp: bnd_def)
    with p2 Inl t1 have "tracked w w' ((cv @ pre2) @ raised r)"
      using tracked_trans [of w w1 cv w2 "pre2 @ raised r2"] by simp
    moreover from p2(2) have "prefix (cv @ pre2) (run_plan E img0)"
      using Inr by (auto simp: run_plan_def cv_def prefix_def)
    ultimately show ?thesis using \<open>r = Inl e\<close> Inr
      by (intro exI [of _ "cv @ pre2"]) (auto simp: cv_def)
  next
    case (Inr u)
    with rest l have "r = Inr ()" "tracked w2 w' [Print success_line]"
      by (auto simp: bnd_def print_def tracked_def)
    moreover from Inr p2 have e2: "pre2 = loop_plan E src ICON_SIZES"
      "\<forall>x\<in>set ICON_SIZES. body_ok E src x" "raised r2 = []"
      by (auto simp: raised_def)
    ultimately have "tracked w w' ((cv @ pre2) @ [Print success_line])" and rr: "raised r = []"
      using t1 p2(1) tracked_trans [of w w1 cv w2 pre2]
        tracked_trans [of w w2 "cv @ pre2" w' "[Print success_line]"]
      by (simp_all add: raised_def)
    moreover have rp: "(cv @ pre2) @ [Print success_line] = run_plan E img0"
      using e2 \<open>source_image E img0 = Inr src\<close> by (simp add: run_plan_def cv_def)
    ultimately have "tracked w w' (run_plan E img0 @ raised r)"
      by simp
    moreover have "run_ok E img0"
      using e2 \<open>source_image E img0 = Inr src\<close> by (simp add: run_ok_def)
    moreover have "prefix (conv_events img0 src) (run_plan E img0)"
      unfolding rp [symmetric] cv_def by simp
    ultimately show ?thesis using \<open>source_image E img0 = Inr src\<close>
      by (intro exI [of _ "run_plan E img0"]) auto
  qed
qed

lemma generate_icons_load_failed:
  assumes "source_load E w = Inl e"
  shows "generate_icons E w =
           (Inr (), w\<lparr>trace := trace w @
              [Print (''Loading source icon: '' @ SOURCE_ICON), Raised e,
               Print (''Error loading source icon: '' @ str_exn e)]\<rparr>)"
  using assms
  by (auto simp: source_load_def generate_icons_def load_source_def bnd_def try_except_def
      print_def Image_open_def py_raise_def ret_def split: option.splits sum.splits)

lemma generate_icons_loaded:
  assumes "source_load E w = Inr img0" and "generate_icons E w = (r, w')"
  shows "\<exists>pre. tracked w w' (load_events img0 @ pre @ raised r) \<and> prefix pre (run_plan E img0)
           \<and> (r = Inr () \<longrightarrow> pre = run_plan E img0 \<and> run_ok E img0)
           \<and> (case source_image E img0 of
                 Inl e \<Rightarrow> pre = [] \<and> r = Inl e
               | Inr src \<Rightarrow> prefix (conv_events img0 src) pre)"
proof -
  define w1 where "w1 = w\<lparr>trace := trace w @ load_events img0\<rparr>"
  have t1: "tracked w w1 (load_events img0)"
    by (auto simp: tracked_def w1_def load_events_def)
  from assms have "after_load E img0 w1 = (r, w')"
    by (auto simp: source_load_def generate_icons_def load_source_def bnd_def try_except_def
      print_def Image_open_def py_raise_def ret_def w1_def load_events_def split: option.splits sum.splits)
  from after_load_plan [OF this] obtain pre where
    p: "tracked w1 w' (pre @ raised r)" "prefix pre (run_plan E img0)"
      "r = Inr () \<longrightarrow> pre = run_plan E img0 \<and> run_ok E img0"
      "case source_image E img0 of
         Inl e \<Rightarrow> pre = [] \<and> r = Inl e
       | Inr src \<Rightarrow> prefix (conv_events img0 src) pre" by blast
  from t1 p(1) have "tracked w w' (load_events img0 @ pre @ raised r)"
    by (rule tracked_trans)
  with p show ?thesis by blast
qed

lemma icon_paths_distinct: "distinct icon_paths"
  by (simp add: icon_paths_def icon_files_def icon_names_def)

lemma icon_paths_length: "length icon_paths = 20"
  by (simp add: icon_paths_def icon_files_def icon_names_def)

lemma source_not_icon: "SOURCE_ICON \<notin> set icon_paths"
  by (simp add: icon_paths_def icon_files_def icon_names_def SOURCE_ICON_def)

lemma icon_path_eval:
  "(d, s) \<in> set ICON_SIZES \<Longrightarrow> n \<in> set icon_names \<Longrightarrow>
     os_path_join (icon_dir d) n = ''app/src/main/res/mipmap-'' @ d @ ''/'' @ n"
  by (auto simp: ICON_SIZES_def icon_names_def icon_dir_def os_path_join_def MIPMAP_DIR_def)

lemma density_no_sep: "(d, s) \<in> set ICON_SIZES \<Longrightarrow> CHR ''/'' \<notin> set d"
  by (auto simp: ICON_SIZES_def)

lemma density_size_unique:
  "(d, s) \<in> set ICON_SIZES \<Longrightarrow> (d, s') \<in> set ICON_SIZES \<Longrightarrow> s = s'"
  by (auto simp: ICON_SIZES_def)

lemma split_at_sep:
  "c \<notin> set d \<Longrightarrow> c \<notin> set d' \<Longrightarrow> d @ c # n = d' @ c # n' \<Longrightarrow> d = d' \<and> n = n'"
proof (induction d arbitrary: d')
  case Nil
  then show ?case by (cases d') auto
next
  case (Cons a d)
  then show ?case by (cases d') auto
qed

lemma icon_path_inj:
  assumes "(d, s) \<in> set ICON_SIZES" and "(d', s') \<in> set ICON_SIZES"
    and "d @ ''/'' @ n = d' @ ''/'' @ n'"
  shows "d = d' \<and> s = s' \<and> n = n'"
proof -
  from assms(1,2) have "CHR ''/'' \<notin> set d" "CHR ''/'' \<notin> set d'"
    by (auto dest: density_no_sep)
  with assms(3) have "d = d' \<and> n = n'"
    using split_at_sep [of "CHR ''/''" d d' n n'] by simp
  with assms(1,2) show ?thesis
    by (auto dest: density_size_unique)
qed

lemma table_paths:
  "concat (map (\<lambda>(d, s). map (os_path_join (icon_dir d)) icon_names) ICON_SIZES) = icon_paths"
  by (simp add: ICON_SIZES_def icon_paths_def icon_files_def icon_names_def icon_dir_def
      os_path_join_def MIPMAP_DIR_def)

lemma table_dirs:
  "map (\<lambda>(d, s). icon_dir d) ICON_SIZES =
     map (\<lambda>d. ''app/src/main/res/mipmap-'' @ d) [''mdpi'', ''hdpi'', ''xhdpi'', ''xxhdpi'', ''xxxhdpi'']"
  by (simp add: ICON_SIZES_def icon_dir_def os_path_join_def MIPMAP_DIR_def)

lemma saved_files_append: "saved_files (xs @ ys) = saved_files xs @ saved_files ys"
  by (induction xs rule: saved_files.induct) simp_all

lemma made_dir_list_append: "made_dir_list (xs @ ys) = made_dir_list xs @ made_dir_list ys"
  by (induction xs rule: made_dir_list.induct) simp_all

lemma saved_files_prefix: "prefix xs ys \<Longrightarrow> prefix (saved_files xs) (saved_files ys)"
  by (auto simp: prefix_def saved_files_append)

lemma made_dir_list_prefix: "prefix xs ys \<Longrightarrow> prefix (made_dir_list xs) (made_dir_list ys)"
  by (auto simp: prefix_def made_dir_list_append)

lemma Saved_in_saved_files:
  "Saved i p f opts b \<in> set evs \<Longrightarrow> (p, b) \<in> set (saved_files evs)"
  by (induction evs rule: saved_files.induct) auto

lemma saved_files_in_Saved:
  "(p, b) \<in> set (saved_files evs) \<Longrightarrow> \<exists>i f opts. Saved i p f opts b \<in> set evs"
  by (induction evs rule: saved_files.induct) auto

lemma write_files_saved_files:
  "write_files evs m = fold (\<lambda>(p, b) m. m(p \<mapsto> b)) (saved_files evs) m"
  by (induction evs m rule: write_files.induct) (simp_all add: fun_upd_def)

lemma fold_upd_other:
  "p \<notin> fst ` set xs \<Longrightarrow> fold (\<lambda>(p, b) m. m(p \<mapsto> b)) xs m p = m p"
  by (induction xs arbitrary: m) auto

lemma fold_upd_saved:
  "distinct (map fst xs) \<Longrightarrow> (p, b) \<in> set xs \<Longrightarrow> fold (\<lambda>(p, b) m. m(p \<mapsto> b)) xs m p = Some b"
  by (induction xs arbitrary: m) (auto simp: fold_upd_other)

lemma fold_upd_idem:
  "\<forall>(p, b)\<in>set xs. m p = Some b \<Longrightarrow> fold (\<lambda>(p, b) m. m(p \<mapsto> b)) xs m = m"
  by (induction xs arbitrary: m) (auto simp: fun_upd_idem)

lemma write_files_other:
  "p \<notin> fst ` set (saved_files evs) \<Longrightarrow> write_files evs m p = m p"
  by (simp add: write_files_saved_files fold_upd_other)

lemma write_files_saved:
  "distinct (map fst (saved_files evs)) \<Longrightarrow> (p, b) \<in> set (saved_files evs) \<Longrightarrow>
     write_files evs m p = Some b"
  by (simp add: write_files_saved_files fold_upd_saved)

lemma write_files_idem:
  "\<forall>(p, b)\<in>set (saved_files evs). m p = Some b \<Longrightarrow> write_files evs m = m"
  by (simp add: write_files_saved_files fold_upd_idem)

lemma write_files_dom: "m p \<noteq> None \<Longrightarrow> write_files evs m p \<noteq> None"
  by (induction evs m rule: write_files.induct) (auto simp: fun_upd_def)

subsection \<open>The events of the loop\<close>

lemma body_plan_Saved:
  assumes "Saved i p f opts b \<in> set (body_plan E src (d, s))"
  shows "pil_resize E src (s, s) LANCZOS = Inr i \<and> pil_encode E i f opts = Inr b \<and>
         ((p = os_path_join (icon_dir d) ''ic_launcher.png'' \<or>
           p = os_path_join (icon_dir d) ''ic_launcher_round.png'') \<and>
          f = PNG \<and> opts = [Optimize True] \<or>
          (p = os_path_join (icon_dir d) ''ic_launcher.webp'' \<or>
           p = os_path_join (icon_dir d) ''ic_launcher_round.webp'') \<and>
          f = WEBP \<and> opts = [Quality 95])"
  using assms by (auto simp: body_plan_def split: sum.splits)

lemma body_plan_Resized:
  assumes "Resized a sz f r \<in> set (body_plan E src (d, s))"
  shows "a = src \<and> sz = (s, s) \<and> f = LANCZOS \<and> pil_resize E src (s, s) LANCZOS = Inr r"
  using assms by (auto simp: body_plan_def split: sum.splits)

lemma body_plan_others:
  "Raised e \<notin> set (body_plan E src x)" "Converted a m c \<notin> set (body_plan E src x)"
  "Opened q a \<notin> set (body_plan E src x)"
  by (auto simp: body_plan_def split: sum.splits prod.splits)

lemma body_plan_saved_paths:
  "prefix (map fst (saved_files (body_plan E src (d, s))))
          (map (os_path_join (icon_dir d)) icon_names)"
  by (auto simp: body_plan_def icon_names_def split: sum.splits)

lemma body_plan_saved_paths_ok:
  "body_ok E src (d, s) \<Longrightarrow>
     map fst (saved_files (body_plan E src (d, s))) = map (os_path_join (icon_dir d)) icon_names"
  by (auto simp: body_plan_def body_ok_def icon_names_def split: sum.splits)

lemma body_plan_dirs: "made_dir_list (body_plan E src (d, s)) = [icon_dir d]"
  by (auto simp: body_plan_def split: sum.splits)

lemma loop_plan_in:
  "ev \<in> set (loop_plan E src ds) \<Longrightarrow> \<exists>x\<in>set ds. ev \<in> set (body_plan E src x)"
  by (induction ds) (auto split: if_splits)

lemma loop_plan_saved_paths:
  "prefix (map fst (saved_files (loop_plan E src ds)))
          (concat (map (\<lambda>(d, s). map (os_path_join (icon_dir d)) icon_names) ds))"
proof (induction ds)
  case Nil
  show ?case by simp
next
  case (Cons x xs)
  obtain d s where x: "x = (d, s)" by (cases x)
  show ?case
  proof (cases "body_ok E src x")
    case True
    with Cons x show ?thesis
      by (simp add: saved_files_append body_plan_saved_paths_ok)
  next
    case False
    with x show ?thesis
      using body_plan_saved_paths [of E src d s] by (simp add: prefix_def) auto
  qed
qed

lemma loop_plan_saved_paths_ok:
  "\<forall>x\<in>set ds. body_ok E src x \<Longrightarrow>
     map fst (saved_files (loop_plan E src ds)) =
       concat (map (\<lambda>(d, s). map (os_path_join (icon_dir d)) icon_names) ds)"
  by (induction ds) (auto simp: saved_files_append body_plan_saved_paths_ok)

lemma loop_plan_dirs:
  "prefix (made_dir_list (loop_plan E src ds)) (map (\<lambda>(d, s). icon_dir d) ds)"
  by (induction ds) (auto simp: made_dir_list_append body_plan_dirs)

lemma loop_plan_dirs_ok:
  "\<forall>x\<in>set ds. body_ok E src x \<Longrightarrow>
     made_dir_list (loop_plan E src ds) = map (\<lambda>(d, s). icon_dir d) ds"
  by (induction ds) (auto simp: made_dir_list_append body_plan_dirs)

lemma run_plan_saved_paths: "prefix (map fst (saved_files (run_plan E img0))) icon_paths"
  using loop_plan_saved_paths [of E _ ICON_SIZES]
  by (auto simp: run_plan_def conv_events_def saved_files_append table_paths split: sum.splits)

lemma run_plan_saved_paths_ok:
  "run_ok E img0 \<Longrightarrow> map fst (saved_files (run_plan E img0)) = icon_paths"
  using loop_plan_saved_paths_ok [of ICON_SIZES E]
  by (auto simp: run_plan_def run_ok_def conv_events_def saved_files_append table_paths
      split: sum.splits)

lemma run_plan_in:
  assumes "ev \<in> set (run_plan E img0)"
  shows "\<exists>src. source_image E img0 = Inr src \<and>
           (ev = Converted img0 ''RGBA'' src \<and> img_mode img0 \<noteq> ''RGBA'' \<or>
            (\<exists>x\<in>set ICON_SIZES. ev \<in> set (body_plan E src x)) \<or>
            ev = Print success_line)"
proof (cases "source_image E img0")
  case (Inl e)
  with assms show ?thesis by (simp add: run_plan_def)
next
  case (Inr src)
  with assms show ?thesis
    by (auto simp: run_plan_def conv_events_def split: if_splits dest: loop_plan_in)
qed

text \<open>What every run that loaded the image looks like.\<close>

lemma loaded_run:
  assumes "source_load E w = Inr img0" and "generate_icons E w = (r, w')"
  obtains pre where
    "new_events w w' = load_events img0 @ pre @ raised r"
    "prefix pre (run_plan E img0)"
    "r = Inr () \<Longrightarrow> pre = run_plan E img0 \<and> run_ok E img0"
    "files w' = write_files pre (files w)"
    "dirs w' = dirs w \<union> made_dirs pre"
    "saved_files (new_events w w') = saved_files pre"
    "saves_followed (new_events w w')"
    "case source_image E img0 of
       Inl e \<Rightarrow> pre = [] \<and> r = Inl e
     | Inr src \<Rightarrow> prefix (conv_events img0 src) pre"
proof -
  from generate_icons_loaded [OF assms] obtain pre where
    p: "tracked w w' (load_events img0 @ pre @ raised r)" "prefix pre (run_plan E img0)"
      "r = Inr () \<longrightarrow> pre = run_plan E img0 \<and> run_ok E img0"
      "case source_image E img0 of
         Inl e \<Rightarrow> pre = [] \<and> r = Inl e
       | Inr src \<Rightarrow> prefix (conv_events img0 src) pre" by blast
  from p(1) have n: "new_events w w' = load_events img0 @ pre @ raised r"
    by (rule tracked_new_events)
  have "write_files (load_events img0 @ pre @ raised r) m = write_files pre m" for m
    by (simp add: write_files_append load_events_def raised_def split: sum.splits)
  moreover have "made_dirs (load_events img0 @ pre @ raised r) = made_dirs pre"
    by (simp add: made_dirs_append load_events_def raised_def split: sum.splits)
  moreover have "saved_files (load_events img0 @ pre @ raised r) = saved_files pre"
    by (simp add: saved_files_append load_events_def raised_def split: sum.splits)
  ultimately show ?thesis
    using that [of pre] p n by (simp add: tracked_def)
qed

subsection \<open>A run in which nothing raises returns\<close>

lemma quiet_body:
  assumes "os_quiet E" and "body_ok E src x"
  shows "fst (loop_body E src x w) = Inr ()"
  using assms
  by (cases x)
    (auto simp: os_quiet_def body_ok_def loop_body_def bnd_def print_def os_makedirs_def
      Image_resize_def Image_save_def Let_def split: sum.splits)

lemma quiet_loop:
  assumes "os_quiet E" and "\<forall>x\<in>set ds. body_ok E src x"
  shows "fst (for_each ds (loop_body E src) w) = Inr ()"
  using assms(2)
proof (induction ds arbitrary: w)
  case Nil
  show ?case by (simp add: ret_def)
next
  case (Cons x xs)
  from Cons.prems have "fst (loop_body E src x w) = Inr ()"
    using quiet_body [OF assms(1)] by simp
  then obtain w1 where "loop_body E src x w = (Inr (), w1)"
    by (cases "loop_body E src x w") auto
  with Cons show ?case by (simp add: bnd_def)
qed

lemma quiet_run:
  assumes "os_quiet E" and "source_load E w = Inr img0" and "run_ok E img0"
  shows "fst (generate_icons E w) = Inr ()"
proof -
  obtain r w' where g: "generate_icons E w = (r, w')" by (cases "generate_icons E w")
  from assms(3) obtain src where s: "source_image E img0 = Inr src"
    "\<forall>x\<in>set ICON_SIZES. body_ok E src x"
    by (auto simp: run_ok_def split: sum.splits)
  have l: "fst (for_each ICON_SIZES (loop_body E src) w1) = Inr ()" for w1
    using quiet_loop [OF assms(1) s(2)] .
  have "fst (after_load E img0 w1) = Inr ()" for w1
  proof -
    obtain w2 where "for_each ICON_SIZES (loop_body E src)
        (if img_mode img0 \<noteq> ''RGBA'' then w1\<lparr>trace := trace w1 @ [Converted img0 ''RGBA'' src]\<rparr> else w1)
        = (Inr (), w2)"
      using l by (metis prod.collapse)
    with s(1) show ?thesis
      by (auto simp: after_load_def source_image_def bnd_def Image_convert_def ret_def print_def
          split: if_splits)
  qed
  with assms(2) show ?thesis
    by (auto simp: source_load_def generate_icons_def load_source_def bnd_def try_except_def
      print_def Image_open_def py_raise_def ret_def split: option.splits sum.splits prod.splits)
qed

subsection \<open>The events of a run that loaded the image\<close>

lemma distinct_of_prefix: "prefix xs ys \<Longrightarrow> distinct ys \<Longrightarrow> distinct xs"
  by (auto simp: prefix_def)

lemma loaded_saved_paths:
  assumes "source_load E w = Inr img0" and "generate_icons E w = (r, w')"
  shows "prefix (map fst (saved_files (new_events w w'))) icon_paths"
    and "distinct (map fst (saved_files (new_events w w')))"
    and "files w' = write_files (new_events w w') (files w)"
proof -
  from loaded_run [OF assms] obtain pre where
    p: "new_events w w' = load_events img0 @ pre @ raised r" "prefix pre (run_plan E img0)"
      "files w' = write_files pre (files w)" "saved_files (new_events w w') = saved_files pre"
    by metis
  from p(2) have "prefix (map fst (saved_files pre)) (map fst (saved_files (run_plan E img0)))"
    by (intro map_mono_prefix saved_files_prefix)
  with run_plan_saved_paths [of E img0] p(4)
  show a: "prefix (map fst (saved_files (new_events w w'))) icon_paths"
    by (metis prefix_order.trans)
  then show "distinct (map fst (saved_files (new_events w w')))"
    using icon_paths_distinct by (rule distinct_of_prefix)
  show "files w' = write_files (new_events w w') (files w)"
    using p(1,3)
    by (simp add: write_files_append load_events_def raised_def split: sum.splits)
qed

lemma loaded_in_plan:
  assumes "source_load E w = Inr img0" and "generate_icons E w = (r, w')"
    and "ev \<in> set (new_events w w')"
  shows "ev \<in> set (load_events img0) \<or> ev \<in> set (run_plan E img0) \<or> ev \<in> set (raised r)"
proof -
  from loaded_run [OF assms(1,2)] obtain pre where
    p: "new_events w w' = load_events img0 @ pre @ raised r" "prefix pre (run_plan E img0)"
    by metis
  from p(2) have "set pre \<subseteq> set (run_plan E img0)" by (rule set_mono_prefix)
  with assms(3) p(1) show ?thesis by auto
qed

lemma loaded_Saved:
  assumes "source_load E w = Inr img0" and "generate_icons E w = (r, w')"
    and "Saved i p f opts b \<in> set (new_events w w')"
  shows "\<exists>src d s n. source_image E img0 = Inr src \<and> (d, s) \<in> set ICON_SIZES \<and>
           pil_resize E src (s, s) LANCZOS = Inr i \<and> pil_encode E i f opts = Inr b \<and>
           p = ''app/src/main/res/mipmap-'' @ d @ ''/'' @ n \<and>
           ((n = ''ic_launcher.png'' \<or> n = ''ic_launcher_round.png'') \<and>
              f = PNG \<and> opts = [Optimize True] \<or>
            (n = ''ic_launcher.webp'' \<or> n = ''ic_launcher_round.webp'') \<and>
              f = WEBP \<and> opts = [Quality 95]) \<and>
           files w' p = Some b"
proof -
  from loaded_in_plan [OF assms] have "Saved i p f opts b \<in> set (run_plan E img0)"
    by (auto simp: load_events_def raised_def split: sum.splits)
  from run_plan_in [OF this] obtain src d s where
    s: "source_image E img0 = Inr src" "(d, s) \<in> set ICON_SIZES"
      "Saved i p f opts b \<in> set (body_plan E src (d, s))"
    by auto
  note bp = body_plan_Saved [OF s(3)]
  have ev: "os_path_join (icon_dir d) n = ''app/src/main/res/mipmap-'' @ d @ ''/'' @ n"
    if "n \<in> set icon_names" for n
    using icon_path_eval [OF s(2) that] .
  let ?ok = "\<lambda>n. (n = ''ic_launcher.png'' \<or> n = ''ic_launcher_round.png'') \<and>
              f = PNG \<and> opts = [Optimize True] \<or>
            (n = ''ic_launcher.webp'' \<or> n = ''ic_launcher_round.webp'') \<and>
              f = WEBP \<and> opts = [Quality 95]"
  from bp consider
      (a) "p = os_path_join (icon_dir d) ''ic_launcher.png''" "f = PNG" "opts = [Optimize True]"
    | (b) "p = os_path_join (icon_dir d) ''ic_launcher_round.png''" "f = PNG" "opts = [Optimize True]"
    | (c) "p = os_path_join (icon_dir d) ''ic_launcher.webp''" "f = WEBP" "opts = [Quality 95]"
    | (d) "p = os_path_join (icon_dir d) ''ic_launcher_round.webp''" "f = WEBP" "opts = [Quality 95]"
    by blast
  then have "\<exists>n. n \<in> set icon_names \<and> p = os_path_join (icon_dir d) n \<and> ?ok n"
  proof cases
    case a
    then show ?thesis by (intro exI [of _ "''ic_launcher.png''"]) (simp add: icon_names_def)
  next
    case b
    then show ?thesis by (intro exI [of _ "''ic_launcher_round.png''"]) (simp add: icon_names_def)
  next
    case c
    then show ?thesis by (intro exI [of _ "''ic_launcher.webp''"]) (simp add: icon_names_def)
  next
    case d
    then show ?thesis by (intro exI [of _ "''ic_launcher_round.webp''"]) (simp add: icon_names_def)
  qed
  then obtain n where n: "n \<in> set icon_names" "p = os_path_join (icon_dir d) n" "?ok n"
    by blast
  have "(p, b) \<in> set (saved_files (new_events w w'))"
    using assms(3) by (rule Saved_in_saved_files)
  then have "files w' p = Some b"
    using loaded_saved_paths [OF assms(1,2)] write_files_saved by metis
  moreover from n ev have "p = ''app/src/main/res/mipmap-'' @ d @ ''/'' @ n" by simp
  moreover from bp have "pil_resize E src (s, s) LANCZOS = Inr i" "pil_encode E i f opts = Inr b"
    by simp_all
  ultimately show ?thesis using s(1,2) n(3) by blast
qed

lemma loaded_Resized:
  assumes "source_load E w = Inr img0" and "generate_icons E w = (r, w')"
    and "Resized a sz f res \<in> set (new_events w w')"
  shows "\<exists>d s. source_image E img0 = Inr a \<and> (d, s) \<in> set ICON_SIZES \<and> sz = (s, s) \<and>
           f = LANCZOS \<and> pil_resize E a (s, s) LANCZOS = Inr res"
proof -
  from loaded_in_plan [OF assms] have "Resized a sz f res \<in> set (run_plan E img0)"
    by (auto simp: load_events_def raised_def split: sum.splits)
  from run_plan_in [OF this] obtain src d s where
    s: "source_image E img0 = Inr src" "(d, s) \<in> set ICON_SIZES"
      "Resized a sz f res \<in> set (body_plan E src (d, s))"
    by auto
  from body_plan_Resized [OF s(3)] s(1,2) show ?thesis by blast
qed

lemma loaded_Converted:
  assumes "source_load E w = Inr img0" and "generate_icons E w = (r, w')"
    and "Converted a m c \<in> set (new_events w w')"
  shows "a = img0 \<and> m = ''RGBA'' \<and> img_mode img0 \<noteq> ''RGBA'' \<and>
         pil_convert E img0 ''RGBA'' = Inr c"
proof -
  from loaded_in_plan [OF assms] have "Converted a m c \<in> set (run_plan E img0)"
    by (auto simp: load_events_def raised_def split: sum.splits)
  from run_plan_in [OF this] show ?thesis
    by (auto simp: body_plan_others source_image_def split: if_splits)
qed

lemma loaded_Raised:
  assumes "source_load E w = Inr img0" and "generate_icons E w = (r, w')"
    and "Raised e \<in> set (new_events w w')"
  shows "r = Inl e"
proof -
  have "Raised e \<notin> set (run_plan E img0)"
    using run_plan_in [of "Raised e" E img0] by (auto simp: body_plan_others)
  with loaded_in_plan [OF assms] show ?thesis
    by (auto simp: load_events_def raised_def split: sum.splits)
qed

lemma icon_file_of_path:
  assumes "(d, s) \<in> set ICON_SIZES" and "(d', s') \<in> set ICON_SIZES"
    and "''app/src/main/res/mipmap-'' @ d @ ''/'' @ n = ''app/src/main/res/mipmap-'' @ d' @ ''/'' @ n'"
  shows "d = d' \<and> s = s' \<and> n = n'"
  using icon_path_inj [OF assms(1,2), of n n'] assms(3) by simp

lemma conversions_append: "conversions (xs @ ys) = conversions xs @ conversions ys"
  by (induction xs rule: conversions.induct) simp_all

lemma conversions_none: "(\<And>a m c. Converted a m c \<notin> set evs) \<Longrightarrow> conversions evs = []"
  by (induction evs rule: conversions.induct) auto

lemma source_image_mode:
  assumes "pillow_documented E" and "source_image E img0 = Inr src"
  shows "img_mode src = ''RGBA''"
  using assms by (auto simp: pillow_documented_def source_image_def split: if_splits)

lemma loop_plan_no_Converted: "Converted a m c \<notin> set (loop_plan E src ds)"
  using loop_plan_in [of "Converted a m c" E src ds] by (auto simp: body_plan_others)

lemma resize_list_append: "resize_list (xs @ ys) = resize_list xs @ resize_list ys"
  by (induction xs rule: resize_list.induct) simp_all

lemma resize_list_prefix: "prefix xs ys \<Longrightarrow> prefix (resize_list xs) (resize_list ys)"
  by (auto simp: prefix_def resize_list_append)

lemma body_plan_resizes:
  "prefix (resize_list (body_plan E src (d, s))) [((s, s), LANCZOS)]"
  "body_ok E src (d, s) \<Longrightarrow> resize_list (body_plan E src (d, s)) = [((s, s), LANCZOS)]"
  by (auto simp: body_plan_def body_ok_def split: sum.splits)

lemma loop_plan_resizes:
  "prefix (resize_list (loop_plan E src ds)) (map (\<lambda>(d, s). ((s, s), LANCZOS)) ds)"
proof (induction ds)
  case Nil
  show ?case by simp
next
  case (Cons x xs)
  obtain d s where x: "x = (d, s)" by (cases x)
  show ?case
  proof (cases "body_ok E src x")
    case True
    with Cons x show ?thesis by (simp add: resize_list_append body_plan_resizes)
  next
    case False
    have "prefix (resize_list (body_plan E src (d, s)))
            ([((s, s), LANCZOS)] @ map (\<lambda>(d, s). ((s, s), LANCZOS)) xs)"
      using body_plan_resizes(1) [of E src d s] by (rule prefix_prefix)
    with False x show ?thesis by simp
  qed
qed

lemma loop_plan_resizes_ok:
  "\<forall>x\<in>set ds. body_ok E src x \<Longrightarrow>
     resize_list (loop_plan E src ds) = map (\<lambda>(d, s). ((s, s), LANCZOS)) ds"
  by (induction ds) (auto simp: resize_list_append body_plan_resizes)

lemma run_plan_order:
  "prefix (made_dir_list (run_plan E img0)) (map (\<lambda>(d, s). icon_dir d) ICON_SIZES)"
  "prefix (resize_list (run_plan E img0)) (map (\<lambda>(d, s). ((s, s), LANCZOS)) ICON_SIZES)"
  using loop_plan_dirs [of E _ ICON_SIZES] loop_plan_resizes [of E _ ICON_SIZES]
  by (auto simp: run_plan_def conv_events_def made_dir_list_append resize_list_append
      split: sum.splits)

lemma run_plan_order_ok:
  assumes "run_ok E img0"
  shows "made_dir_list (run_plan E img0) = map (\<lambda>(d, s). icon_dir d) ICON_SIZES"
    and "resize_list (run_plan E img0) = map (\<lambda>(d, s). ((s, s), LANCZOS)) ICON_SIZES"
  using assms loop_plan_dirs_ok [of ICON_SIZES E] loop_plan_resizes_ok [of ICON_SIZES E]
  by (auto simp: run_plan_def run_ok_def conv_events_def made_dir_list_append resize_list_append
      split: sum.splits)

lemma bnd_print: "bnd (print s) f w = f () (w\<lparr>trace := trace w @ [Print s]\<rparr>)"
  by (simp add: bnd_def print_def)

lemma run_plan_no_Raised: "Raised e \<notin> set (run_plan E img0)"
  using run_plan_in [of "Raised e" E img0] by (auto simp: body_plan_others)

lemma prefix_take: "prefix xs ys \<Longrightarrow> xs = take (length xs) ys"
  by (auto simp: prefix_def)

lemma source_load_Inr:
  assumes "source_load E w = Inr img"
  shows "\<exists>b. files w SOURCE_ICON = Some b \<and> pil_decode E b = Inr img"
  using assms
  by (auto simp: source_load_def Image_open_def print_def py_raise_def
      split: option.splits sum.splits)

lemma load_quiet:
  assumes "\<And>v p. os_open_err E v p = None" and "files w SOURCE_ICON = Some b"
    and "pil_decode E b = Inr img"
  shows "source_load E w = Inr img"
  using assms by (simp add: source_load_def Image_open_def print_def)

lemma loaded_other_files:
  assumes "source_load E w = Inr img0" and "generate_icons E w = (r, w')"
    and "q \<notin> set icon_paths"
  shows "files w' q = files w q"
proof -
  note sp = loaded_saved_paths [OF assms(1,2)]
  from sp(1) have "set (map fst (saved_files (new_events w w'))) \<subseteq> set icon_paths"
    by (rule set_mono_prefix)
  with assms(3) have "q \<notin> fst ` set (saved_files (new_events w w'))" by auto
  with sp(3) show ?thesis by (simp add: write_files_other)
qed

lemma for_each_Resized:
  assumes "for_each ds (loop_body E src) w = (r, w')"
    and "Resized a sz f res \<in> set (new_events w w')"
  shows "a = src \<and> (\<exists>d s. (d, s) \<in> set ds \<and> sz = (s, s)) \<and> f = LANCZOS \<and>
         pil_resize E src sz f = Inr res"
proof -
  from for_each_plan [OF assms(1)] obtain pre where
    p: "tracked w w' (pre @ raised r)" "prefix pre (loop_plan E src ds)" by blast
  from p(1) have "new_events w w' = pre @ raised r" by (rule tracked_new_events)
  with assms(2) have "Resized a sz f res \<in> set pre"
    by (auto simp: raised_def split: sum.splits)
  with p(2) have "Resized a sz f res \<in> set (loop_plan E src ds)"
    using set_mono_prefix by blast
  from loop_plan_in [OF this] obtain d s where
    "(d, s) \<in> set ds" "Resized a sz f res \<in> set (body_plan E src (d, s))" by auto
  with body_plan_Resized [of a sz f res E src d s] show ?thesis by auto
qed

subsection \<open>Sample runs\<close>

lemma load0: "source_load pillow_ok world0 = Inr icon0"
  by (simp add: source_load_def Image_open_def print_def pillow_ok_def world0_def icon0_def
      SOURCE_ICON_def)

lemma ok0: "run_ok pillow_ok icon0"
  by (simp add: run_ok_def source_image_def body_ok_def pillow_ok_def icon0_def ICON_SIZES_def)

lemma quiet0: "os_quiet pillow_ok"
  by (simp add: os_quiet_def pillow_ok_def)

lemma run0: "generate_icons pillow_ok world0 = (Inr (), snd (generate_icons pillow_ok world0))"
  using quiet_run [OF quiet0 load0 ok0] by (metis prod.collapse)

lemma loadd: "source_load denied_env world0 = Inr icon0"
  by (simp add: source_load_def Image_open_def print_def pillow_ok_def denied_env_def world0_def icon0_def
      SOURCE_ICON_def)

lemma rund: "generate_icons denied_env world0 =
   (Inl (Exception ''[Errno 13] Permission denied''),
    world0\<lparr>trace := load_events icon0 @
      [Converted icon0 ''RGBA'' (icon0\<lparr>img_mode := ''RGBA''\<rparr>),
       Print (generating_line ''mdpi'' 48),
       Raised (Exception ''[Errno 13] Permission denied'')]\<rparr>)"
  by (simp add: generate_icons_def load_source_def after_load_def loop_body_def bnd_def ret_def
     try_except_def print_def Image_open_def Image_convert_def os_makedirs_def py_raise_def
     pillow_ok_def denied_env_def world0_def icon0_def ICON_SIZES_def SOURCE_ICON_def
     load_events_def generating_line_def)

lemma run0_events:
  "new_events world0 (snd (generate_icons pillow_ok world0)) =
     load_events icon0 @ run_plan pillow_ok icon0"
proof -
  from loaded_run [OF load0 run0] obtain pre where
    "new_events world0 (snd (generate_icons pillow_ok world0)) = load_events icon0 @ pre @ raised (Inr () :: exn + unit)"
    "pre = run_plan pillow_ok icon0 \<and> run_ok pillow_ok icon0"
    by metis
  then show ?thesis by (simp add: raised_def)
qed

lemma plan0:
  "run_plan pillow_ok icon0 =
     Converted icon0 ''RGBA'' (icon0\<lparr>img_mode := ''RGBA''\<rparr>) #
     loop_plan pillow_ok (icon0\<lparr>img_mode := ''RGBA''\<rparr>) ICON_SIZES @ [Print success_line]"
  by (simp add: run_plan_def source_image_def conv_events_def body_ok_def pillow_ok_def icon0_def
      ICON_SIZES_def)

lemma body0:
  "body_plan pillow_ok src (d, s) =
    [Print (generating_line d s), MadeDirs (icon_dir d),
     Resized src (s, s) LANCZOS (src\<lparr>img_size := (s, s)\<rparr>),
     Saved (src\<lparr>img_size := (s, s)\<rparr>) (os_path_join (icon_dir d) ''ic_launcher.png'') PNG
       [Optimize True] (1 # nat s # img_data src),
     Print (saved_line (os_path_join (icon_dir d) ''ic_launcher.png'')),
     Saved (src\<lparr>img_size := (s, s)\<rparr>) (os_path_join (icon_dir d) ''ic_launcher_round.png'') PNG
       [Optimize True] (1 # nat s # img_data src),
     Print (saved_line (os_path_join (icon_dir d) ''ic_launcher_round.png'')),
     Saved (src\<lparr>img_size := (s, s)\<rparr>) (os_path_join (icon_dir d) ''ic_launcher.webp'') WEBP
       [Quality 95] (2 # nat s # img_data src),
     Print (saved_line (os_path_join (icon_dir d) ''ic_launcher.webp'')),
     Saved (src\<lparr>img_size := (s, s)\<rparr>) (os_path_join (icon_dir d) ''ic_launcher_round.webp'') WEBP
       [Quality 95] (2 # nat s # img_data src),
     Print (saved_line (os_path_join (icon_dir d) ''ic_launcher_round.webp''))]"
  by (simp add: body_plan_def pillow_ok_def)

lemma body_ok0: "body_ok pillow_ok src x"
  by (cases x) (simp add: body_ok_def pillow_ok_def)

lemma hdpi_dir: "icon_dir ''hdpi'' = ''app/src/main/res/mipmap-hdpi''"
  by (simp add: icon_dir_def os_path_join_def MIPMAP_DIR_def)

lemma hdpi_saved:
  "Saved (icon0\<lparr>img_mode := ''RGBA'', img_size := (72, 72)\<rparr>)
     ''app/src/main/res/mipmap-hdpi/ic_launcher.webp'' WEBP [Quality 95] [2, 72, 7]
     \<in> set (new_events world0 (snd (generate_icons pillow_ok world0)))"
  "Saved (icon0\<lparr>img_mode := ''RGBA'', img_size := (72, 72)\<rparr>)
     ''app/src/main/res/mipmap-hdpi/ic_launcher_round.webp'' WEBP [Quality 95] [2, 72, 7]
     \<in> set (new_events world0 (snd (generate_icons pillow_ok world0)))"
  unfolding run0_events plan0
  by (simp_all add: ICON_SIZES_def body0 body_ok0 hdpi_dir os_path_join_def icon0_def)

lemma documented0: "pillow_documented pillow_ok"
  by (simp add: pillow_documented_def pillow_ok_def)

lemma full_makedirs:
  "bnd (os_makedirs full_env p) f w =
     f () (w\<lparr>dirs := dirs w \<union> set (dir_chain [] p), trace := trace w @ [MadeDirs p]\<rparr>)"
  by (simp add: bnd_def os_makedirs_def full_env_def pillow_ok_def)

lemma full_resize:
  "bnd (Image_resize full_env img sz fl) f w =
     f (img\<lparr>img_size := sz\<rparr>) (w\<lparr>trace := trace w @ [Resized img sz fl (img\<lparr>img_size := sz\<rparr>)]\<rparr>)"
  by (simp add: bnd_def Image_resize_def full_env_def pillow_ok_def)

lemma full_save:
  "bnd (Image_save full_env img p fmt opts) f w =
     (if p = ''app/src/main/res/mipmap-mdpi/ic_launcher.webp''
      then (Inl (Exception ''[Errno 28] No space left on device''),
            w\<lparr>trace := trace w @ [Raised (Exception ''[Errno 28] No space left on device'')]\<rparr>)
      else f () (w\<lparr>files := (files w)(p \<mapsto>
                     (case fmt of PNG \<Rightarrow> 1 | WEBP \<Rightarrow> 2) # nat (fst (img_size img)) # img_data img),
                   trace := trace w @ [Saved img p fmt opts
                     ((case fmt of PNG \<Rightarrow> 1 | WEBP \<Rightarrow> 2) # nat (fst (img_size img)) # img_data img)]\<rparr>))"
  by (simp add: bnd_def Image_save_def py_raise_def full_env_def pillow_ok_def)

lemma mdpi_dir: "icon_dir ''mdpi'' = ''app/src/main/res/mipmap-mdpi''"
  by (simp add: icon_dir_def os_path_join_def MIPMAP_DIR_def)

lemma body_full:
  "loop_body full_env src (''mdpi'', 48) w =
   (Inl (Exception ''[Errno 28] No space left on device''),
    w\<lparr>files := (files w)
              (''app/src/main/res/mipmap-mdpi/ic_launcher.png'' \<mapsto> 1 # 48 # img_data src,
               ''app/src/main/res/mipmap-mdpi/ic_launcher_round.png'' \<mapsto> 1 # 48 # img_data src),
      dirs := dirs w \<union> set (dir_chain [] ''app/src/main/res/mipmap-mdpi''),
      trace := trace w @
       [Print (generating_line ''mdpi'' 48),
        MadeDirs ''app/src/main/res/mipmap-mdpi'',
        Resized src (48, 48) LANCZOS (src\<lparr>img_size := (48, 48)\<rparr>),
        Saved (src\<lparr>img_size := (48, 48)\<rparr>)
          ''app/src/main/res/mipmap-mdpi/ic_launcher.png'' PNG [Optimize True] (1 # 48 # img_data src),
        Print (saved_line ''app/src/main/res/mipmap-mdpi/ic_launcher.png''),
        Saved (src\<lparr>img_size := (48, 48)\<rparr>)
          ''app/src/main/res/mipmap-mdpi/ic_launcher_round.png'' PNG [Optimize True] (1 # 48 # img_data src),
        Print (saved_line ''app/src/main/res/mipmap-mdpi/ic_launcher_round.png''),
        Raised (Exception ''[Errno 28] No space left on device'')]\<rparr>)"
  unfolding loop_body_def prod.case Let_def
  by (simp add: bnd_print full_makedirs full_resize full_save os_path_join_def MIPMAP_DIR_def
      generating_line_def)

lemma load_full: "source_load full_env world0 = Inr icon0"
  by (simp add: source_load_def Image_open_def print_def pillow_ok_def full_env_def world0_def
      icon0_def SOURCE_ICON_def)

lemma convert_full:
  "bnd (Image_convert full_env img m) f w =
     f (img\<lparr>img_mode := m\<rparr>) (w\<lparr>trace := trace w @ [Converted img m (img\<lparr>img_mode := m\<rparr>)]\<rparr>)"
  by (simp add: bnd_def Image_convert_def full_env_def pillow_ok_def)

lemma after_load_full:
  "after_load full_env icon0 w =
     (Inl (Exception ''[Errno 28] No space left on device''),
      snd (loop_body full_env (icon0\<lparr>img_mode := ''RGBA''\<rparr>) (''mdpi'', 48)
        (w\<lparr>trace := trace w @ [Converted icon0 ''RGBA'' (icon0\<lparr>img_mode := ''RGBA''\<rparr>)]\<rparr>)))"
proof -
  have m: "img_mode icon0 \<noteq> ''RGBA''" by (simp add: icon0_def)
  show ?thesis
    unfolding after_load_def ICON_SIZES_def for_each.simps
    by (simp add: m convert_full) (simp add: bnd_def body_full)
qed

lemma run_full:
  "generate_icons full_env world0 =
     (Inl (Exception ''[Errno 28] No space left on device''),
      snd (loop_body full_env (icon0\<lparr>img_mode := ''RGBA''\<rparr>) (''mdpi'', 48)
        (world0\<lparr>trace := load_events icon0 @
           [Converted icon0 ''RGBA'' (icon0\<lparr>img_mode := ''RGBA''\<rparr>)]\<rparr>)))"
proof -
  have "load_source full_env (world0\<lparr>trace := [Print (''Loading source icon: '' @ SOURCE_ICON)]\<rparr>)
      = (Inr (Some icon0), world0\<lparr>trace := load_events icon0\<rparr>)"
    by (simp add: load_source_def try_except_def bnd_def ret_def print_def Image_open_def
        full_env_def pillow_ok_def world0_def icon0_def load_events_def SOURCE_ICON_def)
  moreover have "trace world0 = []" by (simp add: world0_def)
  ultimately show ?thesis
    by (simp add: generate_icons_def bnd_print) (simp add: bnd_def after_load_full)
qed

lemma full_result:
  "fst (generate_icons full_env world0) = Inl (Exception ''[Errno 28] No space left on device'')"
  by (simp add: run_full)

lemma full_events:
  "new_events world0 (snd (generate_icons full_env world0)) =
     load_events icon0 @
       [Converted icon0 ''RGBA'' (icon0\<lparr>img_mode := ''RGBA''\<rparr>),
        Print (generating_line ''mdpi'' 48),
        MadeDirs ''app/src/main/res/mipmap-mdpi'',
        Resized (icon0\<lparr>img_mode := ''RGBA''\<rparr>) (48, 48) LANCZOS
          (icon0\<lparr>img_mode := ''RGBA'', img_size := (48, 48)\<rparr>),
        Saved (icon0\<lparr>img_mode := ''RGBA'', img_size := (48, 48)\<rparr>)
          ''app/src/main/res/mipmap-mdpi/ic_launcher.png'' PNG [Optimize True] [1, 48, 7],
        Print (saved_line ''app/src/main/res/mipmap-mdpi/ic_launcher.png''),
        Saved (icon0\<lparr>img_mode := ''RGBA'', img_size := (48, 48)\<rparr>)
          ''app/src/main/res/mipmap-mdpi/ic_launcher_round.png'' PNG [Optimize True] [1, 48, 7],
        Print (saved_line ''app/src/main/res/mipmap-mdpi/ic_launcher_round.png''),
        Raised (Exception ''[Errno 28] No space left on device'')]"
proof -
  have "trace world0 = []" by (simp add: world0_def)
  moreover have "img_data icon0 = [7]" by (simp add: icon0_def)
  ultimately show ?thesis
    by (simp add: run_full body_full new_events_def)
qed

lemma run0_source: "files (snd (generate_icons pillow_ok world0)) SOURCE_ICON = Some [7]"
  using loaded_other_files [OF load0 run0 source_not_icon] by (simp add: world0_def)

lemma load1: "source_load pillow_ok (snd (generate_icons pillow_ok world0)) = Inr icon0"
proof (rule load_quiet [OF _ run0_source])
  show "os_open_err pillow_ok v p = None" for v p by (simp add: pillow_ok_def)
  show "pil_decode pillow_ok [7] = Inr icon0" by (simp add: pillow_ok_def icon0_def)
qed

lemma run1:
  "generate_icons pillow_ok (snd (generate_icons pillow_ok world0)) =
     (Inr (), snd (generate_icons pillow_ok (snd (generate_icons pillow_ok world0))))"
  using quiet_run [OF quiet0 load1 ok0] by (metis prod.collapse)

lemma hdpi_resized:
  "Resized (icon0\<lparr>img_mode := ''RGBA''\<rparr>) (72, 72) LANCZOS
     (icon0\<lparr>img_mode := ''RGBA'', img_size := (72, 72)\<rparr>)
     \<in> set (new_events world0 (snd (generate_icons pillow_ok world0)))"
  unfolding run0_events plan0
  by (simp add: ICON_SIZES_def body0 body_ok0)

section \<open>The claims\<close>

text \<open>
  In every theorem below \<open>E\<close> is any behaviour of Pillow and the operating system, \<open>w\<close>
  any world in which \<open>generate_icons\<close> starts, \<open>r\<close> and \<open>w'\<close> what it returns or raises
  and the world it leaves.
\<close>

text \<open>
  Claim C1, as stated: for every successfully loaded source image \<open>generate_icons\<close> writes
  exactly twenty files. It fails where a later call raises: with an operating system that
  lets no directory be made the image loads, \<open>os.makedirs\<close> raises in the first
  iteration, the exception leaves \<open>generate_icons\<close> and no file has been written.
\<close>

theorem twenty_files_counterexample:
  "source_load denied_env world0 = Inr icon0 \<and>
   fst (generate_icons denied_env world0) = Inl (Exception ''[Errno 13] Permission denied'') \<and>
   saved_files (new_events world0 (snd (generate_icons denied_env world0))) = [] \<and>
   files (snd (generate_icons denied_env world0)) = files world0"
proof -
  have "trace world0 = []" by (simp add: world0_def)
  then show ?thesis
    by (simp add: loadd rund new_events_def load_events_def)
qed

text \<open>
  Claim C1, amended: when the source image loads and \<open>generate_icons\<close> returns normally,
  it has written exactly the twenty files of the output layout, once each and in the
  order of the table: every one of them exists afterwards, and no other path of the file
  system has changed.
\<close>

theorem twenty_files:
  assumes "source_load E w = Inr img0" and "generate_icons E w = (Inr (), w')"
  shows "map fst (saved_files (new_events w w')) = icon_paths \<and>
         length icon_paths = 20 \<and> distinct icon_paths \<and>
         (\<forall>p\<in>set icon_paths. files w' p \<noteq> None) \<and>
         (\<forall>p. p \<notin> set icon_paths \<longrightarrow> files w' p = files w p)"
proof -
  from loaded_run [OF assms] obtain pre where
    p: "pre = run_plan E img0 \<and> run_ok E img0" "files w' = write_files pre (files w)"
      "saved_files (new_events w w') = saved_files pre"
    by metis
  then have sp: "map fst (saved_files pre) = icon_paths"
    by (simp add: run_plan_saved_paths_ok)
  have "files w' q \<noteq> None" if "q \<in> set icon_paths" for q
  proof -
    from that sp have "q \<in> fst ` set (saved_files pre)" by (metis set_map)
    then obtain b where "(q, b) \<in> set (saved_files pre)" by auto
    with sp show ?thesis
      using write_files_saved [of pre q b "files w"] icon_paths_distinct p(2) by simp
  qed
  moreover have "files w' q = files w q" if "q \<notin> set icon_paths" for q
    using that sp p(2) write_files_other [of q pre "files w"] by (metis set_map)
  ultimately show ?thesis
    using sp p(3) icon_paths_distinct icon_paths_length by simp
qed

theorem twenty_files_witness:
  "source_load pillow_ok world0 = Inr icon0 \<and>
   fst (generate_icons pillow_ok world0) = Inr () \<and>
   map fst (saved_files (new_events world0 (snd (generate_icons pillow_ok world0)))) = icon_paths \<and>
   files (snd (generate_icons pillow_ok world0)) ''app/src/main/res/mipmap-hdpi/ic_launcher.webp'' \<noteq> None \<and>
   files (snd (generate_icons pillow_ok world0)) SOURCE_ICON = Some [7]"
proof -
  have "''app/src/main/res/mipmap-hdpi/ic_launcher.webp'' \<in> set icon_paths"
    by (simp add: icon_paths_def icon_files_def icon_names_def)
  moreover have "files world0 SOURCE_ICON = Some [7]"
    by (simp add: world0_def)
  ultimately show ?thesis
    using twenty_files [OF load0 run0] load0 run0 source_not_icon
    by (metis fst_conv)
qed

text \<open>
  Claim C2: when \<open>Image.open\<close> raises \<open>e\<close>, \<open>generate_icons\<close> returns normally. All it has
  done is print the loading line, meet the exception, and print the error line that ends
  with \<open>str(e)\<close>: the files and the directories of the world are those it started with.
\<close>

theorem load_failure:
  assumes "source_load E w = Inl e"
  shows "generate_icons E w =
           (Inr (), w\<lparr>trace := trace w @
              [Print ''Loading source icon: app/src/main/res/Icon.png'', Raised e,
               Print (''Error loading source icon: '' @ str_exn e)]\<rparr>)"
  using generate_icons_load_failed [OF assms] by (simp add: SOURCE_ICON_def)

theorem load_failure_witness:
  "source_load pillow_ok world_no_icon =
     Inl (Exception (''[Errno 2] No such file or directory: '' @ quoted SOURCE_ICON)) \<and>
   fst (generate_icons pillow_ok world_no_icon) = Inr () \<and>
   dirs (snd (generate_icons pillow_ok world_no_icon)) = dirs world_no_icon \<and>
   files (snd (generate_icons pillow_ok world_no_icon)) = Map.empty \<and>
   new_events world_no_icon (snd (generate_icons pillow_ok world_no_icon)) =
     [Print ''Loading source icon: app/src/main/res/Icon.png'',
      Raised (Exception (''[Errno 2] No such file or directory: '' @ quoted SOURCE_ICON)),
      Print (''Error loading source icon: [Errno 2] No such file or directory: '' @ quoted SOURCE_ICON)]"
proof -
  have l: "source_load pillow_ok world_no_icon =
     Inl (Exception (''[Errno 2] No such file or directory: '' @ quoted SOURCE_ICON))"
    by (simp add: source_load_def Image_open_def print_def py_raise_def pillow_ok_def
        world_no_icon_def)
  show ?thesis
    using load_failure [OF l] l by (simp add: new_events_def world_no_icon_def)
qed

text \<open>
  Claim C3: in any run, when \<open>ic_launcher\<close> and \<open>ic_launcher_round\<close> of one density and one
  extension (\<open>.png\<close> or \<open>.webp\<close>) have both been saved, the two saves had the same image,
  the same format, the same options and the same encoded bytes. That image is what
  \<open>resize\<close> returned for the density, with nothing done to it in between, and the two
  files hold those same bytes when the run ends.
\<close>

theorem round_is_copy:
  assumes "source_load E w = Inr img0" and "generate_icons E w = (r, w')"
    and "(d, s) \<in> set ICON_SIZES" and "ext = ''.png'' \<or> ext = ''.webp''"
    and "Saved i1 (''app/src/main/res/mipmap-'' @ d @ ''/ic_launcher'' @ ext) f1 o1 b1
           \<in> set (new_events w w')"
    and "Saved i2 (''app/src/main/res/mipmap-'' @ d @ ''/ic_launcher_round'' @ ext) f2 o2 b2
           \<in> set (new_events w w')"
  shows "i2 = i1 \<and> f2 = f1 \<and> o2 = o1 \<and> b2 = b1 \<and>
         (\<exists>src. source_image E img0 = Inr src \<and> pil_resize E src (s, s) LANCZOS = Inr i1) \<and>
         pil_encode E i1 f1 o1 = Inr b1 \<and>
         files w' (''app/src/main/res/mipmap-'' @ d @ ''/ic_launcher'' @ ext) = Some b1 \<and>
         files w' (''app/src/main/res/mipmap-'' @ d @ ''/ic_launcher_round'' @ ext) = Some b1"
proof -
  let ?ok = "\<lambda>n f opts. (n = ''ic_launcher.png'' \<or> n = ''ic_launcher_round.png'') \<and>
              f = PNG \<and> opts = [Optimize True] \<or>
            (n = ''ic_launcher.webp'' \<or> n = ''ic_launcher_round.webp'') \<and>
              f = WEBP \<and> opts = [Quality 95]"
  from loaded_Saved [OF assms(1,2,5)] obtain src d1 s1 n1 where
    a: "source_image E img0 = Inr src" "(d1, s1) \<in> set ICON_SIZES"
      "pil_resize E src (s1, s1) LANCZOS = Inr i1" "pil_encode E i1 f1 o1 = Inr b1"
      "''app/src/main/res/mipmap-'' @ d @ ''/ic_launcher'' @ ext =
         ''app/src/main/res/mipmap-'' @ d1 @ ''/'' @ n1"
      "?ok n1 f1 o1"
      "files w' (''app/src/main/res/mipmap-'' @ d @ ''/ic_launcher'' @ ext) = Some b1"
    by blast
  from loaded_Saved [OF assms(1,2,6)] obtain src' d2 s2 n2 where
    b: "source_image E img0 = Inr src'" "(d2, s2) \<in> set ICON_SIZES"
      "pil_resize E src' (s2, s2) LANCZOS = Inr i2" "pil_encode E i2 f2 o2 = Inr b2"
      "''app/src/main/res/mipmap-'' @ d @ ''/ic_launcher_round'' @ ext =
         ''app/src/main/res/mipmap-'' @ d2 @ ''/'' @ n2"
      "?ok n2 f2 o2"
      "files w' (''app/src/main/res/mipmap-'' @ d @ ''/ic_launcher_round'' @ ext) = Some b2"
    by blast
  from a(5) have "d = d1 \<and> s = s1 \<and> ''ic_launcher'' @ ext = n1"
    using icon_file_of_path [OF assms(3) a(2), of "''ic_launcher'' @ ext" n1] by simp
  moreover from b(5) have "d = d2 \<and> s = s2 \<and> ''ic_launcher_round'' @ ext = n2"
    using icon_file_of_path [OF assms(3) b(2), of "''ic_launcher_round'' @ ext" n2] by simp
  ultimately have e: "d1 = d" "s1 = s" "d2 = d" "s2 = s" "n1 = ''ic_launcher'' @ ext"
    "n2 = ''ic_launcher_round'' @ ext"
    by simp_all
  from a(1) b(1) have "src' = src" by simp
  with a(3) b(3) e have i: "i2 = i1" by simp
  from a(6) b(6) e assms(4) have fo: "f2 = f1 \<and> o2 = o1" by auto
  with a(4) b(4) i have "b2 = b1" by simp
  with i fo a b e show ?thesis by auto
qed

theorem round_is_copy_witness:
  "source_load pillow_ok world0 = Inr icon0 \<and>
   (''hdpi'', 72) \<in> set ICON_SIZES \<and>
   files (snd (generate_icons pillow_ok world0)) ''app/src/main/res/mipmap-hdpi/ic_launcher.webp''
     = Some [2, 72, 7] \<and>
   files (snd (generate_icons pillow_ok world0)) ''app/src/main/res/mipmap-hdpi/ic_launcher_round.webp''
     = Some [2, 72, 7]"
proof -
  have d: "(''hdpi'', 72) \<in> set ICON_SIZES" by (simp add: ICON_SIZES_def)
  show ?thesis
    using round_is_copy [OF load0 run0 d, of "''.webp''"
        "icon0\<lparr>img_mode := ''RGBA'', img_size := (72, 72)\<rparr>" WEBP "[Quality 95]" "[2, 72, 7]"
        "icon0\<lparr>img_mode := ''RGBA'', img_size := (72, 72)\<rparr>" WEBP "[Quality 95]" "[2, 72, 7]"]
      hdpi_saved load0 d
    by simp
qed

text \<open>
  Claim C4: in any run that loaded the image \<open>img0\<close>, with a Pillow that behaves as
  documented. When \<open>img0\<close> is RGBA there is no conversion and the loop works on \<open>img0\<close>.
  When it is not, \<open>convert\<close> is called at once after the load: if it raises, the run
  ends there; if it returns \<open>src\<close>, that is the only conversion of the run, it comes
  before everything else the run does after the load, and the loop works on \<open>src\<close>.
  Every image given to \<open>resize\<close>, every image it returns and every image saved is RGBA.
\<close>

theorem convert_once_first:
  assumes "source_load E w = Inr img0" and "generate_icons E w = (r, w')"
    and "pillow_documented E"
  shows "(img_mode img0 = ''RGBA'' \<longrightarrow>
            conversions (new_events w w') = [] \<and> source_image E img0 = Inr img0) \<and>
         (img_mode img0 \<noteq> ''RGBA'' \<longrightarrow>
            (case pil_convert E img0 ''RGBA'' of
               Inl e \<Rightarrow> new_events w w' = load_events img0 @ [Raised e] \<and> r = Inl e
             | Inr src \<Rightarrow>
                 conversions (new_events w w') = [(img0, ''RGBA'', src)] \<and>
                 img_mode src = ''RGBA'' \<and> source_image E img0 = Inr src \<and>
                 (\<exists>rest. new_events w w' = load_events img0 @ Converted img0 ''RGBA'' src # rest))) \<and>
         (\<forall>a sz f res. Resized a sz f res \<in> set (new_events w w') \<longrightarrow>
            source_image E img0 = Inr a \<and> img_mode a = ''RGBA'' \<and> img_mode res = ''RGBA'') \<and>
         (\<forall>i p f opts b. Saved i p f opts b \<in> set (new_events w w') \<longrightarrow> img_mode i = ''RGBA'')"
proof -
  from loaded_run [OF assms(1,2)] obtain pre where
    p: "new_events w w' = load_events img0 @ pre @ raised r" "prefix pre (run_plan E img0)"
      "case source_image E img0 of
         Inl e \<Rightarrow> pre = [] \<and> r = Inl e
       | Inr src \<Rightarrow> prefix (conv_events img0 src) pre"
    by metis
  have A: "conversions (new_events w w') = [] \<and> source_image E img0 = Inr img0"
    if "img_mode img0 = ''RGBA''"
  proof -
    have "Converted a m c \<notin> set (new_events w w')" for a m c
      using loaded_Converted [OF assms(1,2), of a m c] that by auto
    then show ?thesis using that by (simp add: conversions_none source_image_def)
  qed
  have B: "case pil_convert E img0 ''RGBA'' of
               Inl e \<Rightarrow> new_events w w' = load_events img0 @ [Raised e] \<and> r = Inl e
             | Inr src \<Rightarrow>
                 conversions (new_events w w') = [(img0, ''RGBA'', src)] \<and>
                 img_mode src = ''RGBA'' \<and> source_image E img0 = Inr src \<and>
                 (\<exists>rest. new_events w w' = load_events img0 @ Converted img0 ''RGBA'' src # rest)"
    if m: "img_mode img0 \<noteq> ''RGBA''"
  proof (cases "pil_convert E img0 ''RGBA''")
    case (Inl e)
    with m have "source_image E img0 = Inl e" by (simp add: source_image_def)
    with p(1,3) Inl show ?thesis by (simp add: raised_def)
  next
    case (Inr src)
    with m have si: "source_image E img0 = Inr src" by (simp add: source_image_def)
    with p(3) m obtain rest0 where r0: "pre = Converted img0 ''RGBA'' src # rest0"
      by (auto simp: conv_events_def prefix_def)
    from p(2) r0 si m have "prefix rest0
        (loop_plan E src ICON_SIZES @
          (if \<forall>x\<in>set ICON_SIZES. body_ok E src x then [Print success_line] else []))"
      by (simp add: run_plan_def conv_events_def)
    then have "set rest0 \<subseteq> set (loop_plan E src ICON_SIZES @
          (if \<forall>x\<in>set ICON_SIZES. body_ok E src x then [Print success_line] else []))"
      by (rule set_mono_prefix)
    then have "Converted a m c \<notin> set rest0" for a m c
      using loop_plan_no_Converted [of a m c E src ICON_SIZES] by (auto split: if_splits)
    then have "conversions rest0 = []" by (rule conversions_none)
    moreover have "conversions (raised r) = []" "conversions (load_events img0) = []"
      by (simp_all add: raised_def load_events_def split: sum.splits)
    ultimately have "conversions (new_events w w') = [(img0, ''RGBA'', src)]"
      using p(1) r0 by (simp add: conversions_append)
    moreover have "img_mode src = ''RGBA''"
      using source_image_mode [OF assms(3) si] .
    moreover have "new_events w w' = load_events img0 @ Converted img0 ''RGBA'' src # (rest0 @ raised r)"
      using p(1) r0 by simp
    ultimately show ?thesis using Inr si by auto
  qed
  have C: "source_image E img0 = Inr a \<and> img_mode a = ''RGBA'' \<and> img_mode res = ''RGBA''"
    if "Resized a sz f res \<in> set (new_events w w')" for a sz f res
  proof -
    from loaded_Resized [OF assms(1,2) that] obtain d s where
      s: "source_image E img0 = Inr a" "pil_resize E a (s, s) LANCZOS = Inr res" by blast
    from source_image_mode [OF assms(3) s(1)] s assms(3) show ?thesis
      by (auto simp: pillow_documented_def)
  qed
  have D: "img_mode i = ''RGBA''"
    if "Saved i p f opts b \<in> set (new_events w w')" for i p f opts b
  proof -
    from loaded_Saved [OF assms(1,2) that] obtain src s where
      s: "source_image E img0 = Inr src" "pil_resize E src (s, s) LANCZOS = Inr i" by blast
    from source_image_mode [OF assms(3) s(1)] s assms(3) show ?thesis
      by (auto simp: pillow_documented_def)
  qed
  from A B C D show ?thesis by blast
qed

theorem convert_once_first_witness:
  "source_load pillow_ok world0 = Inr icon0 \<and> pillow_documented pillow_ok \<and>
   img_mode icon0 = ''RGB'' \<and>
   conversions (new_events world0 (snd (generate_icons pillow_ok world0))) =
     [(icon0, ''RGBA'', icon0\<lparr>img_mode := ''RGBA''\<rparr>)]"
proof -
  have c: "pil_convert pillow_ok icon0 ''RGBA'' = Inr (icon0\<lparr>img_mode := ''RGBA''\<rparr>)"
    by (simp add: pillow_ok_def)
  have m: "img_mode icon0 = ''RGB''" by (simp add: icon0_def)
  show ?thesis
    using convert_once_first [OF load0 run0 documented0] load0 documented0 c m by simp
qed

text \<open>
  Claim C5: in any run that loaded the image, with a Pillow that behaves as documented,
  every call of \<open>resize\<close> asks for the filter LANCZOS and for the square \<open>(s, s)\<close> of a
  density of the table, and returns an image of that size; every image saved under the
  directory of a density with size \<open>s\<close> is \<open>s\<close> by \<open>s\<close>. Nothing is assumed of the size
  of the source: the sample run starts from a 512 by 300 image.
\<close>

theorem resize_square_lanczos:
  assumes "source_load E w = Inr img0" and "generate_icons E w = (r, w')"
    and "pillow_documented E"
  shows "(\<forall>a sz f res. Resized a sz f res \<in> set (new_events w w') \<longrightarrow>
            f = LANCZOS \<and> (\<exists>d s. (d, s) \<in> set ICON_SIZES \<and> sz = (s, s) \<and> img_size res = (s, s))) \<and>
         (\<forall>d s n i f opts b.
            (d, s) \<in> set ICON_SIZES \<longrightarrow>
            Saved i (''app/src/main/res/mipmap-'' @ d @ ''/'' @ n) f opts b \<in> set (new_events w w') \<longrightarrow>
            img_size i = (s, s))"
proof -
  have A: "f = LANCZOS \<and> (\<exists>d s. (d, s) \<in> set ICON_SIZES \<and> sz = (s, s) \<and> img_size res = (s, s))"
    if "Resized a sz f res \<in> set (new_events w w')" for a sz f res
  proof -
    from loaded_Resized [OF assms(1,2) that] obtain d s where
      s: "(d, s) \<in> set ICON_SIZES" "sz = (s, s)" "f = LANCZOS"
        "pil_resize E a (s, s) LANCZOS = Inr res" by blast
    with assms(3) have "img_size res = (s, s)" by (auto simp: pillow_documented_def)
    with s show ?thesis by blast
  qed
  have B: "img_size i = (s, s)"
    if "(d, s) \<in> set ICON_SIZES"
      "Saved i (''app/src/main/res/mipmap-'' @ d @ ''/'' @ n) f opts b \<in> set (new_events w w')"
    for d s n i f opts b
  proof -
    from loaded_Saved [OF assms(1,2) that(2)] obtain src d1 s1 n1 where
      s: "(d1, s1) \<in> set ICON_SIZES" "pil_resize E src (s1, s1) LANCZOS = Inr i"
        "''app/src/main/res/mipmap-'' @ d @ ''/'' @ n = ''app/src/main/res/mipmap-'' @ d1 @ ''/'' @ n1"
      by blast
    from icon_file_of_path [OF that(1) s(1,3)] have "s1 = s" by simp
    with s(2) assms(3) show ?thesis by (auto simp: pillow_documented_def)
  qed
  from A B show ?thesis by blast
qed

theorem resize_square_lanczos_witness:
  "source_load pillow_ok world0 = Inr icon0 \<and> pillow_documented pillow_ok \<and>
   img_size icon0 = (512, 300) \<and> (''hdpi'', 72) \<in> set ICON_SIZES \<and>
   Saved (icon0\<lparr>img_mode := ''RGBA'', img_size := (72, 72)\<rparr>)
     ''app/src/main/res/mipmap-hdpi/ic_launcher.webp'' WEBP [Quality 95] [2, 72, 7]
     \<in> set (new_events world0 (snd (generate_icons pillow_ok world0))) \<and>
   img_size (icon0\<lparr>img_mode := ''RGBA'', img_size := (72, 72)\<rparr>) = (72, 72)"
proof -
  have d: "(''hdpi'', 72) \<in> set ICON_SIZES" by (simp add: ICON_SIZES_def)
  have z: "img_size icon0 = (512, 300)" by (simp add: icon0_def)
  have e: "''app/src/main/res/mipmap-'' @ ''hdpi'' @ ''/'' @ ''ic_launcher.webp''
             = ''app/src/main/res/mipmap-hdpi/ic_launcher.webp''" by simp
  from resize_square_lanczos [OF load0 run0 documented0]
  have "img_size (icon0\<lparr>img_mode := ''RGBA'', img_size := (72, 72)\<rparr>) = (72, 72)"
    using d hdpi_saved(1) e by metis
  with load0 documented0 d z hdpi_saved(1) show ?thesis by blast
qed

text \<open>
  Claim C6: the table maps mdpi to 48, hdpi to 72, xhdpi to 96, xxhdpi to 144 and xxxhdpi
  to 192, with its keys in that order. In any run that loaded the image the directories
  made and the sizes resized to come in the order of the table: what a run got to is an
  initial part of it, and a run that returned normally went through all of it.
\<close>

theorem table_in_order:
  assumes "source_load E w = Inr img0" and "generate_icons E w = (r, w')"
  shows "map_of ICON_SIZES =
           [''mdpi'' \<mapsto> 48, ''hdpi'' \<mapsto> 72, ''xhdpi'' \<mapsto> 96, ''xxhdpi'' \<mapsto> 144, ''xxxhdpi'' \<mapsto> 192] \<and>
         map fst ICON_SIZES = [''mdpi'', ''hdpi'', ''xhdpi'', ''xxhdpi'', ''xxxhdpi''] \<and>
         prefix (made_dir_list (new_events w w'))
           (map (\<lambda>d. ''app/src/main/res/mipmap-'' @ d)
              [''mdpi'', ''hdpi'', ''xhdpi'', ''xxhdpi'', ''xxxhdpi'']) \<and>
         prefix (resize_list (new_events w w'))
           (map (\<lambda>s. ((s, s), LANCZOS)) [48, 72, 96, 144, 192]) \<and>
         (r = Inr () \<longrightarrow>
            made_dir_list (new_events w w') =
              map (\<lambda>d. ''app/src/main/res/mipmap-'' @ d)
                [''mdpi'', ''hdpi'', ''xhdpi'', ''xxhdpi'', ''xxxhdpi''] \<and>
            resize_list (new_events w w') = map (\<lambda>s. ((s, s), LANCZOS)) [48, 72, 96, 144, 192])"
proof -
  from loaded_run [OF assms] obtain pre where
    p: "new_events w w' = load_events img0 @ pre @ raised r" "prefix pre (run_plan E img0)"
      "r = Inr () \<Longrightarrow> pre = run_plan E img0 \<and> run_ok E img0"
    by metis
  have m: "made_dir_list (new_events w w') = made_dir_list pre"
    "resize_list (new_events w w') = resize_list pre"
    using p(1)
    by (simp_all add: made_dir_list_append resize_list_append load_events_def raised_def
        split: sum.splits)
  have sz: "map (\<lambda>(d, s). ((s, s), LANCZOS)) ICON_SIZES =
      map (\<lambda>s. ((s, s), LANCZOS)) [48, 72, 96, 144, 192]"
    by (simp add: ICON_SIZES_def)
  have a: "prefix (made_dir_list pre) (map (\<lambda>(d, s). icon_dir d) ICON_SIZES)"
    by (rule prefix_order.trans [OF made_dir_list_prefix [OF p(2)] run_plan_order(1)])
  have b: "prefix (resize_list pre) (map (\<lambda>(d, s). ((s, s), LANCZOS)) ICON_SIZES)"
    by (rule prefix_order.trans [OF resize_list_prefix [OF p(2)] run_plan_order(2)])
  have c: "made_dir_list pre = map (\<lambda>(d, s). icon_dir d) ICON_SIZES \<and>
      resize_list pre = map (\<lambda>(d, s). ((s, s), LANCZOS)) ICON_SIZES" if "r = Inr ()"
    using p(3) [OF that] run_plan_order_ok [of E img0] by simp
  have d: "map_of ICON_SIZES =
           [''mdpi'' \<mapsto> 48, ''hdpi'' \<mapsto> 72, ''xhdpi'' \<mapsto> 96, ''xxhdpi'' \<mapsto> 144, ''xxxhdpi'' \<mapsto> 192]"
    by (rule ext) (simp add: ICON_SIZES_def)
  have e: "map fst ICON_SIZES = [''mdpi'', ''hdpi'', ''xhdpi'', ''xxhdpi'', ''xxxhdpi'']"
    by (simp add: ICON_SIZES_def)
  from a b c show ?thesis
    unfolding m table_dirs sz using d e by (intro conjI impI) simp_all
qed

theorem table_in_order_witness:
  "source_load pillow_ok world0 = Inr icon0 \<and>
   fst (generate_icons pillow_ok world0) = Inr () \<and>
   resize_list (new_events world0 (snd (generate_icons pillow_ok world0))) =
     map (\<lambda>s. ((s, s), LANCZOS)) [48, 72, 96, 144, 192]"
proof -
  have "fst (generate_icons pillow_ok world0) = Inr ()"
    using run0 by (metis fst_conv)
  moreover from table_in_order [OF load0 run0]
  have "resize_list (new_events world0 (snd (generate_icons pillow_ok world0))) =
     map (\<lambda>s. ((s, s), LANCZOS)) [48, 72, 96, 144, 192]"
    by blast
  ultimately show ?thesis using load0 by blast
qed

text \<open>
  Claim C7: a failure of the load is caught, and \<open>generate_icons\<close> returns normally. After
  a successful load nothing is caught: an exception was raised during the run exactly when
  \<open>generate_icons\<close> raises it, it is the last thing that happens in the run (no retry, no
  cleanup, and no other exception before it), every file saved before it is in the file
  system with the bytes that were written, and no file or directory that was there is gone.
\<close>

theorem later_failures_propagate:
  assumes "generate_icons E w = (r, w')"
  shows "(\<forall>e. source_load E w = Inl e \<longrightarrow> r = Inr ()) \<and>
         (\<forall>img0. source_load E w = Inr img0 \<longrightarrow>
            (\<forall>e. Raised e \<in> set (new_events w w') \<longleftrightarrow> r = Inl e) \<and>
            (\<forall>e. r = Inl e \<longrightarrow>
               (\<exists>pre. new_events w w' = pre @ [Raised e] \<and> (\<forall>e'. Raised e' \<notin> set pre))) \<and>
            (\<forall>p b. (p, b) \<in> set (saved_files (new_events w w')) \<longrightarrow> files w' p = Some b) \<and>
            (\<forall>p. files w p \<noteq> None \<longrightarrow> files w' p \<noteq> None) \<and>
            dirs w \<subseteq> dirs w')"
proof -
  have A: "r = Inr ()" if "source_load E w = Inl e" for e
    using generate_icons_load_failed [OF that] assms by simp
  have B: "(\<forall>e. Raised e \<in> set (new_events w w') \<longleftrightarrow> r = Inl e) \<and>
            (\<forall>e. r = Inl e \<longrightarrow>
               (\<exists>pre. new_events w w' = pre @ [Raised e] \<and> (\<forall>e'. Raised e' \<notin> set pre))) \<and>
            (\<forall>p b. (p, b) \<in> set (saved_files (new_events w w')) \<longrightarrow> files w' p = Some b) \<and>
            (\<forall>p. files w p \<noteq> None \<longrightarrow> files w' p \<noteq> None) \<and>
            dirs w \<subseteq> dirs w'"
    if l: "source_load E w = Inr img0" for img0
  proof -
    from loaded_run [OF l assms] obtain pre where
      p: "new_events w w' = load_events img0 @ pre @ raised r" "prefix pre (run_plan E img0)"
        "files w' = write_files pre (files w)" "dirs w' = dirs w \<union> made_dirs pre"
      by metis
    from p(2) have "set pre \<subseteq> set (run_plan E img0)" by (rule set_mono_prefix)
    then have nr: "Raised e' \<notin> set (load_events img0 @ pre)" for e'
      using run_plan_no_Raised [of e' E img0] by (auto simp: load_events_def)
    have 1: "Raised e \<in> set (new_events w w') \<longleftrightarrow> r = Inl e" for e
      using p(1) nr [of e] by (auto simp: raised_def split: sum.splits)
    have 2: "\<exists>pre. new_events w w' = pre @ [Raised e] \<and> (\<forall>e'. Raised e' \<notin> set pre)"
      if "r = Inl e" for e
      using p(1) nr that by (intro exI [of _ "load_events img0 @ pre"]) (simp add: raised_def)
    have 3: "files w' q = Some b" if "(q, b) \<in> set (saved_files (new_events w w'))" for q b
      using loaded_saved_paths(2,3) [OF l assms] that write_files_saved by metis
    have 4: "files w' q \<noteq> None" if "files w q \<noteq> None" for q
      using p(3) that by (simp add: write_files_dom)
    from 1 2 3 4 p(4) show ?thesis by blast
  qed
  from A B show ?thesis by blast
qed

theorem later_failures_propagate_witness:
  "source_load full_env world0 = Inr icon0 \<and>
   Raised (Exception ''[Errno 28] No space left on device'')
     \<in> set (new_events world0 (snd (generate_icons full_env world0))) \<and>
   fst (generate_icons full_env world0) = Inl (Exception ''[Errno 28] No space left on device'') \<and>
   files (snd (generate_icons full_env world0)) ''app/src/main/res/mipmap-mdpi/ic_launcher.png''
     = Some [1, 48, 7] \<and>
   source_load pillow_ok world_no_icon =
     Inl (Exception (''[Errno 2] No such file or directory: '' @ quoted SOURCE_ICON)) \<and>
   fst (generate_icons pillow_ok world_no_icon) = Inr ()"
proof -
  let ?w = "snd (generate_icons full_env world0)"
  have g: "generate_icons full_env world0 = (fst (generate_icons full_env world0), ?w)"
    by simp
  have r: "Raised (Exception ''[Errno 28] No space left on device'') \<in> set (new_events world0 ?w)"
    by (simp add: full_events)
  have s: "(''app/src/main/res/mipmap-mdpi/ic_launcher.png'', [1, 48, 7])
      \<in> set (saved_files (new_events world0 ?w))"
    by (simp add: full_events load_events_def)
  have l: "source_load pillow_ok world_no_icon =
     Inl (Exception (''[Errno 2] No such file or directory: '' @ quoted SOURCE_ICON))"
    by (simp add: source_load_def Image_open_def print_def py_raise_def pillow_ok_def
        world_no_icon_def)
  have g': "generate_icons pillow_ok world_no_icon =
      (fst (generate_icons pillow_ok world_no_icon), snd (generate_icons pillow_ok world_no_icon))"
    by simp
  from later_failures_propagate [OF g] load_full r s
  have "fst (generate_icons full_env world0) = Inl (Exception ''[Errno 28] No space left on device'')"
    "files ?w ''app/src/main/res/mipmap-mdpi/ic_launcher.png'' = Some [1, 48, 7]"
    by blast+
  moreover from later_failures_propagate [OF g'] l
  have "fst (generate_icons pillow_ok world_no_icon) = Inr ()" by blast
  ultimately show ?thesis using load_full r l by blast
qed

text \<open>
  Claim C10: in any run that loaded the image, the files saved are an initial part of the
  twenty paths taken density by density and, within a density, in the order
  \<open>ic_launcher.png\<close>, \<open>ic_launcher_round.png\<close>, \<open>ic_launcher.webp\<close>,
  \<open>ic_launcher_round.webp\<close>; each save is followed at once by the print of its progress
  line. So when the run raises after \<open>k\<close> saves, the first \<open>k\<close> paths of that order are in
  the file system; a run that returns normally saved all twenty.
\<close>

theorem saves_in_fixed_order:
  assumes "source_load E w = Inr img0" and "generate_icons E w = (r, w')"
  shows "icon_paths =
           concat (map (\<lambda>d. map (\<lambda>n. ''app/src/main/res/mipmap-'' @ d @ ''/'' @ n)
                     [''ic_launcher.png'', ''ic_launcher_round.png'', ''ic_launcher.webp'',
                      ''ic_launcher_round.webp''])
             [''mdpi'', ''hdpi'', ''xhdpi'', ''xxhdpi'', ''xxxhdpi'']) \<and>
         map fst (saved_files (new_events w w')) =
           take (length (saved_files (new_events w w'))) icon_paths \<and>
         length (saved_files (new_events w w')) \<le> 20 \<and>
         saves_followed (new_events w w') \<and>
         (\<forall>p\<in>set (take (length (saved_files (new_events w w'))) icon_paths). files w' p \<noteq> None) \<and>
         (r = Inr () \<longrightarrow> length (saved_files (new_events w w')) = 20)"
proof -
  let ?s = "saved_files (new_events w w')"
  note sp = loaded_saved_paths [OF assms]
  from loaded_run [OF assms] obtain pre where
    p: "r = Inr () \<Longrightarrow> pre = run_plan E img0 \<and> run_ok E img0"
      "saved_files (new_events w w') = saved_files pre"
      "saves_followed (new_events w w')"
    by metis
  have 0: "icon_paths =
           concat (map (\<lambda>d. map (\<lambda>n. ''app/src/main/res/mipmap-'' @ d @ ''/'' @ n)
                     [''ic_launcher.png'', ''ic_launcher_round.png'', ''ic_launcher.webp'',
                      ''ic_launcher_round.webp''])
             [''mdpi'', ''hdpi'', ''xhdpi'', ''xxhdpi'', ''xxxhdpi''])"
    unfolding icon_paths_def icon_files_def icon_names_def ..
  have 1: "map fst ?s = take (length ?s) icon_paths"
    using prefix_take [OF sp(1)] by simp
  have 2: "length ?s \<le> 20"
    using prefix_length_le [OF sp(1)] icon_paths_length by simp
  have 3: "files w' q \<noteq> None" if "q \<in> set (take (length ?s) icon_paths)" for q
  proof -
    from that 1 have "q \<in> fst ` set ?s" by (metis set_map)
    then obtain b where "(q, b) \<in> set ?s" by auto
    with sp(2,3) write_files_saved show ?thesis by (metis option.distinct(1))
  qed
  have 4: "length ?s = 20" if "r = Inr ()"
  proof -
    from p(1) [OF that] p(2) have "map fst ?s = icon_paths"
      by (simp add: run_plan_saved_paths_ok)
    then have "length (map fst ?s) = 20" using icon_paths_length by simp
    then show ?thesis by simp
  qed
  from 0 1 2 3 4 p(3) show ?thesis by blast
qed

theorem saves_in_fixed_order_witness:
  "source_load full_env world0 = Inr icon0 \<and>
   fst (generate_icons full_env world0) = Inl (Exception ''[Errno 28] No space left on device'') \<and>
   saved_files (new_events world0 (snd (generate_icons full_env world0))) =
     [(''app/src/main/res/mipmap-mdpi/ic_launcher.png'', [1, 48, 7]),
      (''app/src/main/res/mipmap-mdpi/ic_launcher_round.png'', [1, 48, 7])] \<and>
   take 2 icon_paths = [''app/src/main/res/mipmap-mdpi/ic_launcher.png'',
                        ''app/src/main/res/mipmap-mdpi/ic_launcher_round.png''] \<and>
   files (snd (generate_icons full_env world0))
     ''app/src/main/res/mipmap-mdpi/ic_launcher_round.png'' \<noteq> None \<and>
   saves_followed (new_events world0 (snd (generate_icons full_env world0)))"
proof -
  let ?w = "snd (generate_icons full_env world0)"
  have g: "generate_icons full_env world0 = (fst (generate_icons full_env world0), ?w)"
    by simp
  have s: "saved_files (new_events world0 ?w) =
     [(''app/src/main/res/mipmap-mdpi/ic_launcher.png'', [1, 48, 7]),
      (''app/src/main/res/mipmap-mdpi/ic_launcher_round.png'', [1, 48, 7])]"
    by (simp add: full_events load_events_def saved_files_append)
  have t: "take 2 icon_paths = [''app/src/main/res/mipmap-mdpi/ic_launcher.png'',
                        ''app/src/main/res/mipmap-mdpi/ic_launcher_round.png'']"
    by (simp add: icon_paths_def icon_files_def icon_names_def)
  have len: "length (saved_files (new_events world0 ?w)) = 2"
    unfolding s by simp
  from saves_in_fixed_order [OF load_full g]
  have a: "\<forall>p\<in>set (take (length (saved_files (new_events world0 ?w))) icon_paths). files ?w p \<noteq> None"
    and f: "saves_followed (new_events world0 ?w)"
    by blast+
  from a have "files ?w ''app/src/main/res/mipmap-mdpi/ic_launcher_round.png'' \<noteq> None"
    unfolding len t by simp
  with load_full full_result s t f show ?thesis by blast
qed

text \<open>
  Claim C8: the image loads, a first run returns normally and leaves \<open>w1\<close>, and a second
  run starts in \<open>w1\<close>. The first run wrote the twenty paths and did not touch the source
  icon, so a second load gives the same image. Whatever the second run does, the file
  system after it is the file system after the first run: every file it writes gets the
  bytes it already held. When the second run loads the image and returns normally, it
  writes the same paths with the same bytes in the same order as the first. Resizing and
  encoding are functions of their arguments here: that is the determinism the claim assumes.
\<close>

theorem second_run_same_files:
  assumes "source_load E w0 = Inr img0" and "generate_icons E w0 = (Inr (), w1)"
    and "generate_icons E w1 = (r2, w2)"
  shows "files w2 = files w1 \<and>
         map fst (saved_files (new_events w0 w1)) = icon_paths \<and>
         (\<forall>img. source_load E w1 = Inr img \<longrightarrow> img = img0) \<and>
         (\<forall>img. source_load E w1 = Inr img \<longrightarrow> r2 = Inr () \<longrightarrow>
            saved_files (new_events w1 w2) = saved_files (new_events w0 w1))"
proof -
  let ?plan = "run_plan E img0"
  from loaded_run [OF assms(1,2)] obtain pre1 where
    "pre1 = ?plan \<and> run_ok E img0" "files w1 = write_files pre1 (files w0)"
    "saved_files (new_events w0 w1) = saved_files pre1"
    by metis
  then have one: "run_ok E img0" "files w1 = write_files ?plan (files w0)"
    "saved_files (new_events w0 w1) = saved_files ?plan"
    by simp_all
  have paths: "map fst (saved_files ?plan) = icon_paths"
    using one(1) by (rule run_plan_saved_paths_ok)
  have K: "files w1 q = Some b" if "(q, b) \<in> set (saved_files ?plan)" for q b
    using that paths icon_paths_distinct one(2) by (simp add: write_files_saved)
  have same: "img = img0" if "source_load E w1 = Inr img" for img
  proof -
    from source_load_Inr [OF that] obtain b where
      b: "files w1 SOURCE_ICON = Some b" "pil_decode E b = Inr img" by blast
    from source_load_Inr [OF assms(1)] obtain b0 where
      b0: "files w0 SOURCE_ICON = Some b0" "pil_decode E b0 = Inr img0" by blast
    from loaded_other_files [OF assms(1,2) source_not_icon] b b0 show ?thesis by simp
  qed
  have files2: "files w2 = files w1"
  proof (cases "source_load E w1")
    case (Inl e)
    from generate_icons_load_failed [OF this] assms(3) show ?thesis by auto
  next
    case (Inr img)
    with same have l: "source_load E w1 = Inr img0" by simp
    from loaded_run [OF l assms(3)] obtain pre2 where
      p2: "prefix pre2 ?plan" "files w2 = write_files pre2 (files w1)" by metis
    from p2(1) have "set (saved_files pre2) \<subseteq> set (saved_files ?plan)"
      by (intro set_mono_prefix saved_files_prefix)
    with K have "\<forall>(q, b)\<in>set (saved_files pre2). files w1 q = Some b" by auto
    then show ?thesis using p2(2) by (simp add: write_files_idem)
  qed
  have again: "saved_files (new_events w1 w2) = saved_files (new_events w0 w1)"
    if "source_load E w1 = Inr img" "r2 = Inr ()" for img
  proof -
    from that(1) same have l: "source_load E w1 = Inr img0" by simp
    from loaded_run [OF l assms(3)] obtain pre2 where
      "r2 = Inr () \<Longrightarrow> pre2 = ?plan \<and> run_ok E img0"
      "saved_files (new_events w1 w2) = saved_files pre2" by metis
    with that(2) one(3) show ?thesis by simp
  qed
  from files2 paths one(3) same again show ?thesis by auto
qed

theorem second_run_same_files_witness:
  "source_load pillow_ok world0 = Inr icon0 \<and>
   fst (generate_icons pillow_ok world0) = Inr () \<and>
   source_load pillow_ok (snd (generate_icons pillow_ok world0)) = Inr icon0 \<and>
   fst (generate_icons pillow_ok (snd (generate_icons pillow_ok world0))) = Inr () \<and>
   files (snd (generate_icons pillow_ok (snd (generate_icons pillow_ok world0)))) =
     files (snd (generate_icons pillow_ok world0)) \<and>
   saved_files (new_events (snd (generate_icons pillow_ok world0))
                  (snd (generate_icons pillow_ok (snd (generate_icons pillow_ok world0))))) =
     saved_files (new_events world0 (snd (generate_icons pillow_ok world0)))"
proof -
  have a: "fst (generate_icons pillow_ok world0) = Inr ()"
    using run0 by (metis fst_conv)
  have b: "fst (generate_icons pillow_ok (snd (generate_icons pillow_ok world0))) = Inr ()"
    using run1 by (metis fst_conv)
  from second_run_same_files [OF load0 run0 run1] load1
  have "files (snd (generate_icons pillow_ok (snd (generate_icons pillow_ok world0)))) =
     files (snd (generate_icons pillow_ok world0))"
    "saved_files (new_events (snd (generate_icons pillow_ok world0))
                  (snd (generate_icons pillow_ok (snd (generate_icons pillow_ok world0))))) =
     saved_files (new_events world0 (snd (generate_icons pillow_ok world0)))"
    by blast+
  with load0 load1 a b show ?thesis by blast
qed

text \<open>
  Claim C9: in any run that loaded the image, every call of \<open>resize\<close> is given the source
  image as the loop received it, and every file saved holds the encoding of that image
  resized to the size of its density: a value fixed by the source image and the density
  alone. The last part says the same of the loop on any table \<open>ds\<close>, from any world: what
  an iteration resizes and to what does not depend on the iterations before it.
\<close>

theorem resize_from_unchanged_source:
  assumes "source_load E w = Inr img0" and "generate_icons E w = (r, w')"
  shows "(\<forall>a sz f res. Resized a sz f res \<in> set (new_events w w') \<longrightarrow>
            source_image E img0 = Inr a \<and> pil_resize E a sz f = Inr res) \<and>
         (\<forall>i p f opts b. Saved i p f opts b \<in> set (new_events w w') \<longrightarrow>
            (\<exists>src d s. source_image E img0 = Inr src \<and> (d, s) \<in> set ICON_SIZES \<and>
               p \<in> set (icon_files d) \<and> pil_resize E src (s, s) LANCZOS = Inr i \<and>
               pil_encode E i f opts = Inr b)) \<and>
         (\<forall>ds src v r1 v' a sz f res.
            for_each ds (loop_body E src) v = (r1, v') \<longrightarrow>
            Resized a sz f res \<in> set (new_events v v') \<longrightarrow>
            a = src \<and> (\<exists>d s. (d, s) \<in> set ds \<and> sz = (s, s)) \<and> pil_resize E src sz f = Inr res)"
proof -
  have A: "source_image E img0 = Inr a \<and> pil_resize E a sz f = Inr res"
    if "Resized a sz f res \<in> set (new_events w w')" for a sz f res
    using loaded_Resized [OF assms that] by auto
  have B: "\<exists>src d s. source_image E img0 = Inr src \<and> (d, s) \<in> set ICON_SIZES \<and>
               p \<in> set (icon_files d) \<and> pil_resize E src (s, s) LANCZOS = Inr i \<and>
               pil_encode E i f opts = Inr b"
    if "Saved i p f opts b \<in> set (new_events w w')" for i p f opts b
  proof -
    from loaded_Saved [OF assms that] obtain src d s n where
      s: "source_image E img0 = Inr src" "(d, s) \<in> set ICON_SIZES"
        "pil_resize E src (s, s) LANCZOS = Inr i" "pil_encode E i f opts = Inr b"
        "p = ''app/src/main/res/mipmap-'' @ d @ ''/'' @ n"
        "n = ''ic_launcher.png'' \<or> n = ''ic_launcher_round.png'' \<or>
         n = ''ic_launcher.webp'' \<or> n = ''ic_launcher_round.webp''"
      by blast
    from s(6) have "n \<in> set icon_names" by (auto simp: icon_names_def)
    with s(5) have "p \<in> set (icon_files d)" by (simp add: icon_files_def)
    with s show ?thesis by blast
  qed
  have C: "a = src \<and> (\<exists>d s. (d, s) \<in> set ds \<and> sz = (s, s)) \<and> pil_resize E src sz f = Inr res"
    if "for_each ds (loop_body E src) v = (r1, v')" "Resized a sz f res \<in> set (new_events v v')"
    for ds src v r1 v' a sz f res
    using for_each_Resized [OF that] by blast
  from A B C show ?thesis by blast
qed

theorem resize_from_unchanged_source_witness:
  "source_load pillow_ok world0 = Inr icon0 \<and>
   Resized (icon0\<lparr>img_mode := ''RGBA''\<rparr>) (72, 72) LANCZOS
     (icon0\<lparr>img_mode := ''RGBA'', img_size := (72, 72)\<rparr>)
     \<in> set (new_events world0 (snd (generate_icons pillow_ok world0))) \<and>
   source_image pillow_ok icon0 = Inr (icon0\<lparr>img_mode := ''RGBA''\<rparr>) \<and>
   pil_resize pillow_ok (icon0\<lparr>img_mode := ''RGBA''\<rparr>) (72, 72) LANCZOS =
     Inr (icon0\<lparr>img_mode := ''RGBA'', img_size := (72, 72)\<rparr>)"
  using resize_from_unchanged_source [OF load0 run0] load0 hdpi_resized by blast

end
